theory Spec2Isabelle
  imports Complex_Main "HOL-Library.Word"
begin

unbundle bit_operations_syntax

section \<open>Data model\<close>

text \<open>
  The codec of \<^verbatim>\<open>numenc-cpp/encoder_decoder.cpp\<close>: twenty functions \<^verbatim>\<open>from_T\<close> /
  \<^verbatim>\<open>to_T\<close>, one pair per numeric domain. A byte is an \<open>8 word\<close>; the fixed-width C
  integers are words of their width, read as two's complement by \<open>sint\<close> and \<open>scast\<close>
  and as unsigned by \<open>uint\<close> and \<open>ucast\<close>. A C \<^verbatim>\<open>float\<close> or \<^verbatim>\<open>double\<close> is its IEEE-754 bit
  pattern, a \<open>32 word\<close> or \<open>64 word\<close>.
\<close>

type_synonym byte = "8 word"

text \<open>The byte order of the machine the module is loaded on.\<close>

datatype byte_order = BigEndian | LittleEndian

text \<open>
  The exceptions the functions raise. The source raises \<^verbatim>\<open>ValueError\<close> in two places,
  kept apart here: \<open>RangeError\<close> is the \<^verbatim>\<open>ValueError\<close> "expected N-bit ... integer (range
  ...)" of an encoder, \<open>LengthError\<close> the \<^verbatim>\<open>ValueError\<close> "Illegal input: expected bytes of
  length ..." of a decoder. \<open>NoMemory\<close> is \<^verbatim>\<open>PyErr_NoMemory()\<close>.
\<close>

datatype error = TypeError | RangeError | LengthError | NoMemory

text \<open>
  The Python object a caller passes as the one argument of a function: an integer, a
  bytes object, or anything else.
\<close>

datatype pyobj = PyLong int | PyBytes "byte list" | PyNone

definition ONE_BYTE :: nat where "ONE_BYTE = 1"
definition TWO_BYTES :: nat where "TWO_BYTES = 2"
definition FOUR_BYTES :: nat where "FOUR_BYTES = 4"
definition EIGHT_BYTES :: nat where "EIGHT_BYTES = 8"

section \<open>The machine and the CPython interface\<close>

text \<open>
  The object representation of an \<open>n\<close>-byte scalar in memory: the bytes at increasing
  addresses. This is what the \<^verbatim>\<open>char*\<close> cast of the probe and the unions \<^verbatim>\<open>float_bytes\<close>
  and \<^verbatim>\<open>double_bytes\<close> read and write.
\<close>

definition object_bytes :: "byte_order \<Rightarrow> nat \<Rightarrow> 'a::len word \<Rightarrow> byte list" where
  "object_bytes host n x =
     (case host of
        LittleEndian \<Rightarrow> map (\<lambda>i. ucast (drop_bit (8 * i) x)) [0..<n]
      | BigEndian \<Rightarrow> map (\<lambda>i. ucast (drop_bit (8 * (n - 1 - i)) x)) [0..<n])"

definition object_value :: "byte_order \<Rightarrow> byte list \<Rightarrow> 'a::len word" where
  "object_value host bs =
     (case host of
        LittleEndian \<Rightarrow> foldr (\<lambda>b acc. push_bit 8 acc OR ucast b) bs 0
      | BigEndian \<Rightarrow> foldl (\<lambda>acc b. push_bit 8 acc OR ucast b) 0 bs)"

text \<open>
  \<^verbatim>\<open>endianness_impl\<close>: store the 16-bit number 1 and look at its first byte in memory.
  The result is 0 on a big-endian machine and 1 on a little-endian one.
\<close>

definition endianness_impl :: "byte_order \<Rightarrow> 8 word" where
  "endianness_impl host =
     (let number = (1 :: 16 word);
          numPtr = object_bytes host 2 number
      in if numPtr ! 0 = 1 then 1 else 0)"

definition ENDIANNESS :: "byte_order \<Rightarrow> 8 word" where
  "ENDIANNESS host = endianness_impl host"

text \<open>
  \<^verbatim>\<open>PyArg_ParseTuple\<close> with the integer formats of CPython. The formats \<^verbatim>\<open>h\<close>, \<^verbatim>\<open>i\<close> and
  \<^verbatim>\<open>L\<close> convert a Python integer to a C \<^verbatim>\<open>short\<close>, \<^verbatim>\<open>int\<close> and \<^verbatim>\<open>long long\<close> with
  overflow checking: an integer that does not fit, and an object that is not an
  integer, make the call fail (\<open>None\<close>).
\<close>

definition parse_h :: "pyobj \<Rightarrow> 16 word option" where
  "parse_h args =
     (case args of
        PyLong n \<Rightarrow> if - (2 ^ 15) \<le> n \<and> n \<le> 2 ^ 15 - 1 then Some (word_of_int n) else None
      | _ \<Rightarrow> None)"

definition parse_i :: "pyobj \<Rightarrow> 32 word option" where
  "parse_i args =
     (case args of
        PyLong n \<Rightarrow> if - (2 ^ 31) \<le> n \<and> n \<le> 2 ^ 31 - 1 then Some (word_of_int n) else None
      | _ \<Rightarrow> None)"

definition parse_L :: "pyobj \<Rightarrow> 64 word option" where
  "parse_L args =
     (case args of
        PyLong n \<Rightarrow> if - (2 ^ 63) \<le> n \<and> n \<le> 2 ^ 63 - 1 then Some (word_of_int n) else None
      | _ \<Rightarrow> None)"

text \<open>
  \<^verbatim>\<open>PyLong_AsUnsignedLongLong\<close>: the value of a Python integer in \<open>[0, 2^64 - 1]\<close>;
  for a negative or larger integer, and for an object that is not an integer, it
  returns \<^verbatim>\<open>(unsigned long long) -1\<close> with an exception set (\<open>None\<close>).
\<close>

definition PyLong_AsUnsignedLongLong :: "pyobj \<Rightarrow> 64 word option" where
  "PyLong_AsUnsignedLongLong obj =
     (case obj of
        PyLong n \<Rightarrow> if 0 \<le> n \<and> n \<le> 2 ^ 64 - 1 then Some (word_of_int n) else None
      | _ \<Rightarrow> None)"

text \<open>
  \<^verbatim>\<open>PyArg_ParseTuple\<close> with the format \<^verbatim>\<open>y#\<close>: a bytes object gives its bytes and their
  number; any other object makes the call fail.
\<close>

definition parse_y_hash :: "pyobj \<Rightarrow> (byte list \<times> int) option" where
  "parse_y_hash args =
     (case args of
        PyBytes bs \<Rightarrow> Some (bs, int (length bs))
      | _ \<Rightarrow> None)"

text \<open>
  \<^verbatim>\<open>PyMem_RawMalloc\<close>: \<open>mem\<close> says whether the allocation succeeds; \<open>None\<close> is the
  \<^verbatim>\<open>NULL\<close> pointer. The functions write every cell of the buffer before they read it,
  so the initial contents are immaterial.
\<close>

definition PyMem_RawMalloc :: "bool \<Rightarrow> nat \<Rightarrow> byte list option" where
  "PyMem_RawMalloc mem n = (if mem then Some (replicate n 0) else None)"

definition PyBytes_FromStringAndSize :: "byte list \<Rightarrow> nat \<Rightarrow> byte list" where
  "PyBytes_FromStringAndSize buffer n = take n buffer"

section \<open>8-bit integers\<close>

definition from_int8 :: "bool \<Rightarrow> pyobj \<Rightarrow> error + byte list" where
  "from_int8 mem args =
     (case parse_i args of
        None \<Rightarrow> Inl TypeError
      | Some input \<Rightarrow>
          if input <s - 128 \<or> 127 <s input then Inl RangeError
          else
            (case PyMem_RawMalloc mem ONE_BYTE of
               None \<Rightarrow> Inl NoMemory
             | Some buffer \<Rightarrow>
                 let buffer = buffer[0 := ucast input];
                     buffer = buffer[0 := buffer ! 0 XOR 0x80]
                 in Inr (PyBytes_FromStringAndSize buffer ONE_BYTE)))"

definition to_int8 :: "pyobj \<Rightarrow> error + int" where
  "to_int8 args =
     (case parse_y_hash args of
        None \<Rightarrow> Inl TypeError
      | Some (input, count) \<Rightarrow>
          if count \<noteq> int ONE_BYTE then Inl LengthError
          else
            let decoded = (input ! 0 XOR 0x80 :: 8 word)
            in Inr (sint decoded))"

definition from_uint8 :: "bool \<Rightarrow> pyobj \<Rightarrow> error + byte list" where
  "from_uint8 mem args =
     (case parse_i args of
        None \<Rightarrow> Inl TypeError
      | Some input \<Rightarrow>
          if input <s 0 \<or> 255 <s input then Inl RangeError
          else
            (case PyMem_RawMalloc mem ONE_BYTE of
               None \<Rightarrow> Inl NoMemory
             | Some buffer \<Rightarrow>
                 let buffer = buffer[0 := ucast input]
                 in Inr (PyBytes_FromStringAndSize buffer ONE_BYTE)))"

definition to_uint8 :: "pyobj \<Rightarrow> error + int" where
  "to_uint8 args =
     (case parse_y_hash args of
        None \<Rightarrow> Inl TypeError
      | Some (input, count) \<Rightarrow>
          if count \<noteq> int ONE_BYTE then Inl LengthError
          else
            let decoded = (input ! 0 :: 8 word)
            in Inr (uint decoded))"

section \<open>16-bit integers\<close>

text \<open>
  In \<^verbatim>\<open>(input >> (i * 8)) & 0xff\<close> the 16-bit operand is promoted to \<^verbatim>\<open>int\<close>, a
  32-bit word here, and shifted arithmetically; the store into the \<^verbatim>\<open>char\<close> buffer
  keeps the low eight bits.
\<close>

definition from_int16 :: "byte_order \<Rightarrow> bool \<Rightarrow> pyobj \<Rightarrow> error + byte list" where
  "from_int16 host mem args =
     (case parse_h args of
        None \<Rightarrow> Inl TypeError
      | Some input \<Rightarrow>
          (case PyMem_RawMalloc mem TWO_BYTES of
             None \<Rightarrow> Inl NoMemory
           | Some buffer \<Rightarrow>
               let buffer =
                     (if ENDIANNESS host = 0
                      then fold (\<lambda>i buffer.
                             buffer[i := ucast (signed_drop_bit (i * 8) (scast input :: 32 word) AND 0xff)])
                             [0..<TWO_BYTES] buffer
                      else fold (\<lambda>i buffer.
                             buffer[TWO_BYTES - 1 - i :=
                               ucast (signed_drop_bit (i * 8) (scast input :: 32 word) AND 0xff)])
                             [0..<TWO_BYTES] buffer);
                   buffer = buffer[0 := buffer ! 0 XOR 0x80]
               in Inr (PyBytes_FromStringAndSize buffer TWO_BYTES)))"

definition to_int16 :: "byte_order \<Rightarrow> bool \<Rightarrow> pyobj \<Rightarrow> error + int" where
  "to_int16 host mem args =
     (case parse_y_hash args of
        None \<Rightarrow> Inl TypeError
      | Some (input, count) \<Rightarrow>
          if count \<noteq> int TWO_BYTES then Inl LengthError
          else
            (case PyMem_RawMalloc mem TWO_BYTES of
               None \<Rightarrow> Inl NoMemory
             | Some buffer \<Rightarrow>
                 let buffer = buffer[0 := input ! 0 XOR 0x80];
                     buffer = fold (\<lambda>i buffer. buffer[i := input ! i]) [1..<TWO_BYTES] buffer;
                     decoded =
                       (if ENDIANNESS host = 0
                        then ucast ((ucast (buffer ! 0) :: 32 word) OR push_bit 8 (ucast (buffer ! 1)))
                        else ucast ((ucast (buffer ! 1) :: 32 word) OR push_bit 8 (ucast (buffer ! 0)))
                        :: 16 word)
                 in Inr (sint decoded)))"

definition from_uint16 :: "byte_order \<Rightarrow> bool \<Rightarrow> pyobj \<Rightarrow> error + byte list" where
  "from_uint16 host mem args =
     (case parse_i args of
        None \<Rightarrow> Inl TypeError
      | Some input \<Rightarrow>
          if input <s 0 \<or> 65535 <s input then Inl RangeError
          else
            let u_input = (ucast input :: 16 word)
            in (case PyMem_RawMalloc mem TWO_BYTES of
                  None \<Rightarrow> Inl NoMemory
                | Some buffer \<Rightarrow>
                    let buffer =
                          (if ENDIANNESS host = 0
                           then fold (\<lambda>i buffer.
                                  buffer[i := ucast (signed_drop_bit (i * 8) (ucast u_input :: 32 word) AND 0xff)])
                                  [0..<TWO_BYTES] buffer
                           else fold (\<lambda>i buffer.
                                  buffer[TWO_BYTES - 1 - i :=
                                    ucast (signed_drop_bit (i * 8) (ucast u_input :: 32 word) AND 0xff)])
                                  [0..<TWO_BYTES] buffer)
                    in Inr (PyBytes_FromStringAndSize buffer TWO_BYTES)))"

definition to_uint16 :: "byte_order \<Rightarrow> bool \<Rightarrow> pyobj \<Rightarrow> error + int" where
  "to_uint16 host mem args =
     (case parse_y_hash args of
        None \<Rightarrow> Inl TypeError
      | Some (input, count) \<Rightarrow>
          if count \<noteq> int TWO_BYTES then Inl LengthError
          else
            (case PyMem_RawMalloc mem TWO_BYTES of
               None \<Rightarrow> Inl NoMemory
             | Some buffer \<Rightarrow>
                 let buffer = fold (\<lambda>i buffer. buffer[i := input ! i]) [0..<TWO_BYTES] buffer;
                     decoded =
                       (if ENDIANNESS host = 0
                        then ucast ((ucast (buffer ! 0) :: 32 word) OR push_bit 8 (ucast (buffer ! 1)))
                        else ucast ((ucast (buffer ! 1) :: 32 word) OR push_bit 8 (ucast (buffer ! 0)))
                        :: 16 word)
                 in Inr (uint decoded)))"

section \<open>32-bit integers\<close>

definition from_int32 :: "byte_order \<Rightarrow> bool \<Rightarrow> pyobj \<Rightarrow> error + byte list" where
  "from_int32 host mem args =
     (case parse_i args of
        None \<Rightarrow> Inl TypeError
      | Some input \<Rightarrow>
          (case PyMem_RawMalloc mem FOUR_BYTES of
             None \<Rightarrow> Inl NoMemory
           | Some buffer \<Rightarrow>
               let buffer =
                     (if ENDIANNESS host = 0
                      then fold (\<lambda>i buffer. buffer[i := ucast (signed_drop_bit (i * 8) input AND 0xff)])
                             [0..<FOUR_BYTES] buffer
                      else fold (\<lambda>i buffer. buffer[FOUR_BYTES - 1 - i := ucast (signed_drop_bit (i * 8) input AND 0xff)])
                             [0..<FOUR_BYTES] buffer);
                   buffer = buffer[0 := buffer ! 0 XOR 0x80]
               in Inr (PyBytes_FromStringAndSize buffer FOUR_BYTES)))"

definition to_int32 :: "byte_order \<Rightarrow> bool \<Rightarrow> pyobj \<Rightarrow> error + int" where
  "to_int32 host mem args =
     (case parse_y_hash args of
        None \<Rightarrow> Inl TypeError
      | Some (input, count) \<Rightarrow>
          if count \<noteq> int FOUR_BYTES then Inl LengthError
          else
            (case PyMem_RawMalloc mem FOUR_BYTES of
               None \<Rightarrow> Inl NoMemory
             | Some buffer \<Rightarrow>
                 let buffer = buffer[0 := input ! 0 XOR 0x80];
                     buffer = fold (\<lambda>i buffer. buffer[i := input ! i]) [1..<FOUR_BYTES] buffer;
                     decoded =
                       (if ENDIANNESS host = 0
                        then fold (\<lambda>i decoded.
                               decoded OR push_bit (i * 8) (ucast (buffer ! i) :: 32 word))
                               [0..<FOUR_BYTES] 0
                        else fold (\<lambda>i decoded.
                               decoded OR push_bit (i * 8) (ucast (buffer ! (FOUR_BYTES - 1 - i)) :: 32 word))
                               [0..<FOUR_BYTES] 0)
                 in Inr (sint decoded)))"

definition from_uint32 :: "byte_order \<Rightarrow> bool \<Rightarrow> pyobj \<Rightarrow> error + byte list" where
  "from_uint32 host mem args =
     (case parse_L args of
        None \<Rightarrow> Inl TypeError
      | Some input \<Rightarrow>
          if input <s 0 \<or> 4294967295 <s input then Inl RangeError
          else
            let u_input = (ucast input :: 32 word)
            in (case PyMem_RawMalloc mem FOUR_BYTES of
                  None \<Rightarrow> Inl NoMemory
                | Some buffer \<Rightarrow>
                    let buffer =
                     (if ENDIANNESS host = 0
                      then fold (\<lambda>i buffer. buffer[i := ucast (drop_bit (i * 8) u_input AND 0xff)])
                             [0..<FOUR_BYTES] buffer
                      else fold (\<lambda>i buffer. buffer[FOUR_BYTES - 1 - i := ucast (drop_bit (i * 8) u_input AND 0xff)])
                             [0..<FOUR_BYTES] buffer)
                    in Inr (PyBytes_FromStringAndSize buffer FOUR_BYTES)))"

definition to_uint32 :: "byte_order \<Rightarrow> bool \<Rightarrow> pyobj \<Rightarrow> error + int" where
  "to_uint32 host mem args =
     (case parse_y_hash args of
        None \<Rightarrow> Inl TypeError
      | Some (input, count) \<Rightarrow>
          if count \<noteq> int FOUR_BYTES then Inl LengthError
          else
            (case PyMem_RawMalloc mem FOUR_BYTES of
               None \<Rightarrow> Inl NoMemory
             | Some buffer \<Rightarrow>
                 let buffer = fold (\<lambda>i buffer. buffer[i := input ! i]) [0..<FOUR_BYTES] buffer;
                     decoded =
                       (if ENDIANNESS host = 0
                        then fold (\<lambda>i decoded.
                               decoded OR push_bit (i * 8) (ucast (buffer ! i) :: 32 word))
                               [0..<FOUR_BYTES] 0
                        else fold (\<lambda>i decoded.
                               decoded OR push_bit (i * 8) (ucast (buffer ! (FOUR_BYTES - 1 - i)) :: 32 word))
                               [0..<FOUR_BYTES] 0)
                 in Inr (uint decoded)))"

section \<open>64-bit integers\<close>

definition from_int64 :: "byte_order \<Rightarrow> bool \<Rightarrow> pyobj \<Rightarrow> error + byte list" where
  "from_int64 host mem args =
     (case parse_L args of
        None \<Rightarrow> Inl TypeError
      | Some input \<Rightarrow>
          (case PyMem_RawMalloc mem EIGHT_BYTES of
             None \<Rightarrow> Inl NoMemory
           | Some buffer \<Rightarrow>
               let buffer =
                     (if ENDIANNESS host = 0
                      then fold (\<lambda>i buffer. buffer[i := ucast (signed_drop_bit (i * 8) input AND 0xff)])
                             [0..<EIGHT_BYTES] buffer
                      else fold (\<lambda>i buffer. buffer[EIGHT_BYTES - 1 - i := ucast (signed_drop_bit (i * 8) input AND 0xff)])
                             [0..<EIGHT_BYTES] buffer);
                   buffer = buffer[0 := buffer ! 0 XOR 0x80]
               in Inr (PyBytes_FromStringAndSize buffer EIGHT_BYTES)))"

definition to_int64 :: "byte_order \<Rightarrow> bool \<Rightarrow> pyobj \<Rightarrow> error + int" where
  "to_int64 host mem args =
     (case parse_y_hash args of
        None \<Rightarrow> Inl TypeError
      | Some (input, count) \<Rightarrow>
          if count \<noteq> int EIGHT_BYTES then Inl LengthError
          else
            (case PyMem_RawMalloc mem EIGHT_BYTES of
               None \<Rightarrow> Inl NoMemory
             | Some buffer \<Rightarrow>
                 let buffer = buffer[0 := input ! 0 XOR 0x80];
                     buffer = fold (\<lambda>i buffer. buffer[i := input ! i]) [1..<EIGHT_BYTES] buffer;
                     decoded =
                       (if ENDIANNESS host = 0
                        then fold (\<lambda>i decoded.
                               decoded OR push_bit (i * 8) (ucast (buffer ! i) :: 64 word))
                               [0..<EIGHT_BYTES] 0
                        else fold (\<lambda>i decoded.
                               decoded OR push_bit (i * 8) (ucast (buffer ! (EIGHT_BYTES - 1 - i)) :: 64 word))
                               [0..<EIGHT_BYTES] 0)
                 in Inr (sint decoded)))"

text \<open>
  \<^verbatim>\<open>from_uint64\<close> parses its argument as an object (format \<^verbatim>\<open>O\<close>, which accepts every
  object) and converts it itself; a failed conversion is reported as a \<^verbatim>\<open>TypeError\<close>.
\<close>

definition from_uint64 :: "byte_order \<Rightarrow> bool \<Rightarrow> pyobj \<Rightarrow> error + byte list" where
  "from_uint64 host mem input_obj =
     (case PyLong_AsUnsignedLongLong input_obj of
        None \<Rightarrow> Inl TypeError
      | Some input \<Rightarrow>
          (case PyMem_RawMalloc mem EIGHT_BYTES of
             None \<Rightarrow> Inl NoMemory
           | Some buffer \<Rightarrow>
               let buffer =
                     (if ENDIANNESS host = 0
                      then fold (\<lambda>i buffer. buffer[i := ucast (drop_bit (i * 8) input AND 0xff)])
                             [0..<EIGHT_BYTES] buffer
                      else fold (\<lambda>i buffer. buffer[EIGHT_BYTES - 1 - i := ucast (drop_bit (i * 8) input AND 0xff)])
                             [0..<EIGHT_BYTES] buffer)
               in Inr (PyBytes_FromStringAndSize buffer EIGHT_BYTES)))"

definition to_uint64 :: "byte_order \<Rightarrow> bool \<Rightarrow> pyobj \<Rightarrow> error + int" where
  "to_uint64 host mem args =
     (case parse_y_hash args of
        None \<Rightarrow> Inl TypeError
      | Some (input, count) \<Rightarrow>
          if count \<noteq> int EIGHT_BYTES then Inl LengthError
          else
            (case PyMem_RawMalloc mem EIGHT_BYTES of
               None \<Rightarrow> Inl NoMemory
             | Some buffer \<Rightarrow>
                 let buffer = fold (\<lambda>i buffer. buffer[i := input ! i]) [0..<EIGHT_BYTES] buffer;
                     decoded =
                       (if ENDIANNESS host = 0
                        then fold (\<lambda>i decoded.
                               decoded OR push_bit (i * 8) (ucast (buffer ! i) :: 64 word))
                               [0..<EIGHT_BYTES] 0
                        else fold (\<lambda>i decoded.
                               decoded OR push_bit (i * 8) (ucast (buffer ! (EIGHT_BYTES - 1 - i)) :: 64 word))
                               [0..<EIGHT_BYTES] 0)
                 in Inr (uint decoded)))"

section \<open>IEEE-754 floats\<close>

text \<open>
  A float is its bit pattern: the sign is the top bit, below it the biased exponent,
  and the fraction in the low \<open>fb\<close> bits (23 for binary32, 52 for binary64). The
  magnitude is the pattern without its sign. A pattern is a NaN when its exponent is
  all ones and its fraction is not zero.
\<close>

definition binary32_fraction :: nat where "binary32_fraction = 23"
definition binary64_fraction :: nat where "binary64_fraction = 52"

definition float_sign :: "'a::len word \<Rightarrow> bool" where
  "float_sign x = bit x (LENGTH('a) - 1)"

definition float_magnitude :: "'a::len word \<Rightarrow> 'a word" where
  "float_magnitude x = take_bit (LENGTH('a) - 1) x"

definition float_exponent :: "nat \<Rightarrow> 'a::len word \<Rightarrow> 'a word" where
  "float_exponent fb x = drop_bit fb (float_magnitude x)"

definition float_fraction :: "nat \<Rightarrow> 'a::len word \<Rightarrow> 'a word" where
  "float_fraction fb x = take_bit fb x"

definition float_is_nan :: "nat \<Rightarrow> 'a::len word \<Rightarrow> bool" where
  "float_is_nan fb x \<longleftrightarrow>
     float_exponent fb x = mask (LENGTH('a) - 1 - fb) \<and> float_fraction fb x \<noteq> 0"

text \<open>
  The comparisons of C on floats, which are those of IEEE 754. Every comparison with a
  NaN is false; the two zeros are equal; otherwise a float with the sign set is below
  one without, and within one sign the magnitudes decide: the formats are laid out so
  that a larger magnitude, exponent first and fraction second, is a larger number, the
  infinities being the largest magnitudes that are not NaNs. \<open>float_key\<close> is the signed
  magnitude.
\<close>

definition float_key :: "'a::len word \<Rightarrow> int" where
  "float_key x = (if float_sign x then - uint (float_magnitude x) else uint (float_magnitude x))"

definition float_less :: "nat \<Rightarrow> 'a::len word \<Rightarrow> 'a word \<Rightarrow> bool" where
  "float_less fb a b \<longleftrightarrow> \<not> float_is_nan fb a \<and> \<not> float_is_nan fb b \<and> float_key a < float_key b"

definition float_eq :: "nat \<Rightarrow> 'a::len word \<Rightarrow> 'a word \<Rightarrow> bool" where
  "float_eq fb a b \<longleftrightarrow> \<not> float_is_nan fb a \<and> \<not> float_is_nan fb b \<and> float_key a = float_key b"

text \<open>
  The number a float denotes, when its exponent is not all ones (otherwise it is an
  infinity or a NaN): with the exponent field \<open>e\<close>, the fraction field \<open>f\<close> and the bias
  \<open>2^(k-1) - 1\<close> of a \<open>k\<close>-bit exponent, the magnitude is \<open>2^(e - bias) * (1 + f / 2^fb)\<close>,
  and \<open>2^(1 - bias) * (f / 2^fb)\<close> for the subnormal numbers, whose exponent field is 0.
\<close>

definition float_finite :: "nat \<Rightarrow> 'a::len word \<Rightarrow> bool" where
  "float_finite fb x \<longleftrightarrow> float_exponent fb x \<noteq> mask (LENGTH('a) - 1 - fb)"

definition float_value :: "nat \<Rightarrow> 'a::len word \<Rightarrow> real" where
  "float_value fb x =
     (let e = unat (float_exponent fb x);
          f = unat (float_fraction fb x);
          bias = 2 ^ (LENGTH('a) - 2 - fb) - 1;
          m = (if e = 0 then 2 / 2 ^ bias * (real f / 2 ^ fb)
               else 2 ^ e / 2 ^ bias * (1 + real f / 2 ^ fb))
      in if float_sign x then - m else m)"

text \<open>The magnitude of that number, counted in units of the smallest subnormal number.\<close>

definition float_units :: "nat \<Rightarrow> nat \<Rightarrow> nat" where
  "float_units fb m =
     (if m div 2 ^ fb = 0 then m mod 2 ^ fb
      else 2 ^ (m div 2 ^ fb - 1) * (2 ^ fb + m mod 2 ^ fb))"

text \<open>\<^verbatim>\<open>input >= 0\<close> and \<^verbatim>\<open>input < 0\<close>.\<close>

definition float_ge_zero :: "nat \<Rightarrow> 'a::len word \<Rightarrow> bool" where
  "float_ge_zero fb x \<longleftrightarrow> float_less fb 0 x \<or> float_eq fb x 0"

definition float_lt_zero :: "nat \<Rightarrow> 'a::len word \<Rightarrow> bool" where
  "float_lt_zero fb x \<longleftrightarrow> float_less fb x 0"

text \<open>
  The float encoders are modelled from the parsed argument on: \<open>parsed\<close> is what
  \<^verbatim>\<open>PyArg_ParseTuple\<close> stored in \<^verbatim>\<open>input\<close> with the format \<^verbatim>\<open>f\<close> or \<^verbatim>\<open>d\<close>, \<open>None\<close> when it
  failed. The decoders return the float they hand to \<^verbatim>\<open>Py_BuildValue\<close>.
\<close>

definition from_float32 :: "byte_order \<Rightarrow> bool \<Rightarrow> 32 word option \<Rightarrow> error + byte list" where
  "from_float32 host mem parsed =
     (case parsed of
        None \<Rightarrow> Inl TypeError
      | Some input \<Rightarrow>
          let f_bytes = object_bytes host FOUR_BYTES input
          in (case PyMem_RawMalloc mem FOUR_BYTES of
                None \<Rightarrow> Inl NoMemory
              | Some buffer \<Rightarrow>
                  let buffer =
                        (if float_ge_zero binary32_fraction input
                         then
                           let buffer =
                                 (if ENDIANNESS host = 0
                                  then fold (\<lambda>i buffer. buffer[i := f_bytes ! i])
                                         [0..<FOUR_BYTES] buffer
                                  else fold (\<lambda>i buffer. buffer[FOUR_BYTES - 1 - i := f_bytes ! i])
                                         [0..<FOUR_BYTES] buffer)
                           in buffer[0 := buffer ! 0 OR 0x80]
                         else
                           (if ENDIANNESS host = 0
                            then fold (\<lambda>i buffer. buffer[i := NOT (f_bytes ! i)])
                                   [0..<FOUR_BYTES] buffer
                            else fold (\<lambda>i buffer. buffer[FOUR_BYTES - 1 - i := NOT (f_bytes ! i)])
                                   [0..<FOUR_BYTES] buffer))
                  in Inr (PyBytes_FromStringAndSize buffer FOUR_BYTES)))"

definition to_float32 :: "byte_order \<Rightarrow> bool \<Rightarrow> pyobj \<Rightarrow> error + 32 word" where
  "to_float32 host mem args =
     (case parse_y_hash args of
        None \<Rightarrow> Inl TypeError
      | Some (input, count) \<Rightarrow>
          if count \<noteq> int FOUR_BYTES then Inl LengthError
          else
            (case PyMem_RawMalloc mem FOUR_BYTES of
               None \<Rightarrow> Inl NoMemory
             | Some buffer \<Rightarrow>
                 let buffer =
                       (if input ! 0 AND 0x80 \<noteq> 0
                        then
                          (if ENDIANNESS host = 0
                           then
                             let buffer = fold (\<lambda>i buffer. buffer[i := input ! i])
                                            [0..<FOUR_BYTES] buffer
                             in buffer[0 := buffer ! 0 XOR 0x80]
                           else
                             let buffer = fold (\<lambda>i buffer. buffer[FOUR_BYTES - 1 - i := input ! i])
                                            [0..<FOUR_BYTES] buffer
                             in buffer[FOUR_BYTES - 1 := buffer ! (FOUR_BYTES - 1) XOR 0x80])
                        else
                          (if ENDIANNESS host = 0
                           then fold (\<lambda>i buffer. buffer[i := NOT (input ! i)])
                                  [0..<FOUR_BYTES] buffer
                           else fold (\<lambda>i buffer. buffer[FOUR_BYTES - 1 - i := NOT (input ! i)])
                                  [0..<FOUR_BYTES] buffer));
                     f_bytes = fold (\<lambda>i f_bytes. f_bytes[i := buffer ! i])
                                 [0..<FOUR_BYTES] (replicate FOUR_BYTES 0)
                 in Inr (object_value host f_bytes)))"

definition from_float64 :: "byte_order \<Rightarrow> bool \<Rightarrow> 64 word option \<Rightarrow> error + byte list" where
  "from_float64 host mem parsed =
     (case parsed of
        None \<Rightarrow> Inl TypeError
      | Some input \<Rightarrow>
          let f_bytes = object_bytes host EIGHT_BYTES input
          in (case PyMem_RawMalloc mem EIGHT_BYTES of
                None \<Rightarrow> Inl NoMemory
              | Some buffer \<Rightarrow>
                  let buffer =
                        (if float_ge_zero binary64_fraction input
                         then
                           let buffer =
                                 (if ENDIANNESS host = 0
                                  then fold (\<lambda>i buffer. buffer[i := f_bytes ! i])
                                         [0..<EIGHT_BYTES] buffer
                                  else fold (\<lambda>i buffer. buffer[EIGHT_BYTES - 1 - i := f_bytes ! i])
                                         [0..<EIGHT_BYTES] buffer)
                           in buffer[0 := buffer ! 0 OR 0x80]
                         else
                           (if ENDIANNESS host = 0
                            then fold (\<lambda>i buffer. buffer[i := NOT (f_bytes ! i)])
                                   [0..<EIGHT_BYTES] buffer
                            else fold (\<lambda>i buffer. buffer[EIGHT_BYTES - 1 - i := NOT (f_bytes ! i)])
                                   [0..<EIGHT_BYTES] buffer))
                  in Inr (PyBytes_FromStringAndSize buffer EIGHT_BYTES)))"

definition to_float64 :: "byte_order \<Rightarrow> bool \<Rightarrow> pyobj \<Rightarrow> error + 64 word" where
  "to_float64 host mem args =
     (case parse_y_hash args of
        None \<Rightarrow> Inl TypeError
      | Some (input, count) \<Rightarrow>
          if count \<noteq> int EIGHT_BYTES then Inl LengthError
          else
            (case PyMem_RawMalloc mem EIGHT_BYTES of
               None \<Rightarrow> Inl NoMemory
             | Some buffer \<Rightarrow>
                 let buffer =
                       (if input ! 0 AND 0x80 \<noteq> 0
                        then
                          (if ENDIANNESS host = 0
                           then
                             let buffer = fold (\<lambda>i buffer. buffer[i := input ! i])
                                            [0..<EIGHT_BYTES] buffer
                             in buffer[0 := buffer ! 0 XOR 0x80]
                           else
                             let buffer = fold (\<lambda>i buffer. buffer[EIGHT_BYTES - 1 - i := input ! i])
                                            [0..<EIGHT_BYTES] buffer
                             in buffer[EIGHT_BYTES - 1 := buffer ! (EIGHT_BYTES - 1) XOR 0x80])
                        else
                          (if ENDIANNESS host = 0
                           then fold (\<lambda>i buffer. buffer[i := NOT (input ! i)])
                                  [0..<EIGHT_BYTES] buffer
                           else fold (\<lambda>i buffer. buffer[EIGHT_BYTES - 1 - i := NOT (input ! i)])
                                  [0..<EIGHT_BYTES] buffer));
                     f_bytes = fold (\<lambda>i f_bytes. f_bytes[i := buffer ! i])
                                 [0..<EIGHT_BYTES] (replicate EIGHT_BYTES 0)
                 in Inr (object_value host f_bytes)))"

section \<open>The vocabulary of the specification\<close>

text \<open>
  The big-endian layout of a \<open>w\<close>-byte value: byte \<open>i\<close>, counted from the most
  significant, holds the bits \<open>[8w - 8(i+1), 8w - 8i)\<close>. The little-endian layout is
  its mirror image.
\<close>

definition big_endian :: "nat \<Rightarrow> 'a::len word \<Rightarrow> byte list" where
  "big_endian w x = map (\<lambda>i. ucast (drop_bit (8 * (w - 1 - i)) x)) [0..<w]"

definition little_endian :: "nat \<Rightarrow> 'a::len word \<Rightarrow> byte list" where
  "little_endian w x = map (\<lambda>i. ucast (drop_bit (8 * i) x)) [0..<w]"

text \<open>The value whose big-endian, respectively little-endian, layout a byte string is.\<close>

definition le_word :: "byte list \<Rightarrow> 'a::len word" where
  "le_word bs = fold (\<lambda>i acc. acc OR push_bit (i * 8) (ucast (bs ! i))) [0..<length bs] 0"

definition be_word :: "byte list \<Rightarrow> 'a::len word" where
  "be_word bs =
     fold (\<lambda>i acc. acc OR push_bit (i * 8) (ucast (bs ! (length bs - 1 - i)))) [0..<length bs] 0"

text \<open>Flipping the most significant bit of byte 0.\<close>

definition flip_byte0 :: "byte list \<Rightarrow> byte list" where
  "flip_byte0 bs = bs[0 := bs ! 0 XOR 0x80]"

text \<open>Unsigned lexicographic comparison of byte strings.\<close>

fun bytes_less :: "byte list \<Rightarrow> byte list \<Rightarrow> bool" where
  "bytes_less [] [] = False"
| "bytes_less [] (y # ys) = True"
| "bytes_less (x # xs) [] = False"
| "bytes_less (x # xs) (y # ys) = (x < y \<or> (x = y \<and> bytes_less xs ys))"

text \<open>The number a byte string denotes when byte 0 is the most significant.\<close>

fun be_nat :: "byte list \<Rightarrow> nat" where
  "be_nat [] = 0"
| "be_nat (b # bs) = unat b * 256 ^ length bs + be_nat bs"

text \<open>Two encoder results compare as \<open>encode(a) < encode(b)\<close>: both are bytes, in that order.\<close>

definition encodes_below :: "error + byte list \<Rightarrow> error + byte list \<Rightarrow> bool" where
  "encodes_below r s = (case r of Inl e \<Rightarrow> False
     | Inr x \<Rightarrow> (case s of Inl e \<Rightarrow> False | Inr y \<Rightarrow> bytes_less x y))"

text \<open>
  The layout the integer codecs use on a machine, as the lemmas below establish: big-endian
  on a little-endian machine, little-endian on a big-endian one.
\<close>

definition wire_bytes :: "byte_order \<Rightarrow> nat \<Rightarrow> 'a::len word \<Rightarrow> byte list" where
  "wire_bytes host w x =
     (case host of LittleEndian \<Rightarrow> big_endian w x | BigEndian \<Rightarrow> little_endian w x)"

definition wire_word :: "byte_order \<Rightarrow> byte list \<Rightarrow> 'a::len word" where
  "wire_word host bs = (case host of LittleEndian \<Rightarrow> be_word bs | BigEndian \<Rightarrow> le_word bs)"

text \<open>
  The two transforms of the specification. \<open>normalize_signed\<close> flips the sign bit of a
  two's-complement value. \<open>normalize_float\<close> sets the sign bit of a float that is
  \<open>\<ge> 0\<close> and complements every bit of any other float; \<open>denormalize_float\<close> undoes it
  by the top bit of what it is given.
\<close>

definition sign_bit :: "'a::len word" where
  "sign_bit = push_bit (LENGTH('a) - 1) 1"

definition normalize_signed :: "'a::len word \<Rightarrow> 'a word" where
  "normalize_signed x = x XOR sign_bit"

definition normalize_float :: "nat \<Rightarrow> 'a::len word \<Rightarrow> 'a word" where
  "normalize_float fb x = (if float_ge_zero fb x then x OR sign_bit else NOT x)"

definition denormalize_float :: "'a::len word \<Rightarrow> 'a word" where
  "denormalize_float y = (if bit y (LENGTH('a) - 1) then y XOR sign_bit else NOT y)"

section \<open>Evaluating the buffers\<close>

lemmas widths = ONE_BYTE_def TWO_BYTES_def FOUR_BYTES_def EIGHT_BYTES_def

lemma ENDIANNESS_BigEndian: "ENDIANNESS BigEndian = 0"
  and ENDIANNESS_LittleEndian: "ENDIANNESS LittleEndian = 1"
  by (simp_all add: ENDIANNESS_def endianness_impl_def object_bytes_def)

lemma upt_lists:
  "[0..<2] = [0, 1]" "[0..<4] = [0, 1, 2, 3]" "[0..<8] = [0, 1, 2, 3, 4, 5, 6, 7]"
  "[Suc 0..<2] = [1]" "[Suc 0..<4] = [1, 2, 3]" "[Suc 0..<8] = [1, 2, 3, 4, 5, 6, 7]"
  by (simp_all add: upt_rec)

lemma replicate_lists:
  "replicate 1 x = [x]" "replicate 2 x = [x, x]" "replicate 4 x = [x, x, x, x]"
  "replicate 8 x = [x, x, x, x, x, x, x, x]"
  by (simp_all add: numeral_eq_Suc)

lemma list_update_Cons_numeral: "(x # xs)[numeral k := y] = x # xs[pred_numeral k := y]"
  by (simp add: numeral_eq_Suc)

lemma length_2_list: "length bs = 2 \<Longrightarrow> \<exists>b0 b1. bs = [b0, b1]"
  by (auto simp add: numeral_eq_Suc length_Suc_conv)

lemma length_4_list: "length bs = 4 \<Longrightarrow> \<exists>b0 b1 b2 b3. bs = [b0, b1, b2, b3]"
  by (auto simp add: numeral_eq_Suc length_Suc_conv)

lemma length_8_list:
  "length bs = 8 \<Longrightarrow> \<exists>b0 b1 b2 b3 b4 b5 b6 b7. bs = [b0, b1, b2, b3, b4, b5, b6, b7]"
  by (auto simp add: numeral_eq_Suc length_Suc_conv)

lemma mask_8_numeral: "(255 :: 'a::len word) = mask 8"
  by (simp add: mask_eq_exp_minus_1)

lemma ucast_and_255: "(ucast ((x :: 'a::len word) AND 0xff) :: 8 word) = ucast x"
  unfolding mask_8_numeral
  by (rule bit_word_eqI) (auto simp add: bit_simps dest: bit_imp_le_length)

lemma ucast_signed_drop_bit:
  fixes x :: "'a::len word"
  assumes "k + 8 \<le> LENGTH('a)"
  shows "(ucast (signed_drop_bit k x) :: 8 word) = ucast (drop_bit k x)"
  using assms by (intro bit_word_eqI) (auto simp add: bit_simps)

lemma ucast_drop_bit_scast:
  fixes x :: "'a::len word"
  assumes "k + 8 \<le> LENGTH('a)" "LENGTH('a) \<le> LENGTH('b)"
  shows "(ucast (drop_bit k (scast x :: 'b::len word)) :: 8 word) = ucast (drop_bit k x)"
  using assms by (intro bit_word_eqI) (auto simp add: bit_simps)

lemma ucast_drop_bit_ucast:
  fixes x :: "'a::len word"
  assumes "k + 8 \<le> LENGTH('a)" "LENGTH('a) \<le> LENGTH('b)"
  shows "(ucast (drop_bit k (ucast x :: 'b::len word)) :: 8 word) = ucast (drop_bit k x)"
  using assms by (intro bit_word_eqI) (auto simp add: bit_simps)

lemma ucast_scast_byte:
  fixes x :: "'a::len word"
  assumes "8 \<le> LENGTH('a)" "LENGTH('a) \<le> LENGTH('b)"
  shows "(ucast (scast x :: 'b::len word) :: 8 word) = ucast x"
  using ucast_drop_bit_scast [of 0 x] assms by simp

lemma ucast_ucast_byte:
  fixes x :: "'a::len word"
  assumes "8 \<le> LENGTH('a)" "LENGTH('a) \<le> LENGTH('b)"
  shows "(ucast (ucast x :: 'b::len word) :: 8 word) = ucast x"
  using ucast_drop_bit_ucast [of 0 x] assms by simp

lemmas byte_simps = ucast_and_255 ucast_signed_drop_bit ucast_drop_bit_scast
  ucast_drop_bit_ucast ucast_scast_byte ucast_ucast_byte

lemmas run_simps = Let_def PyMem_RawMalloc_def PyBytes_FromStringAndSize_def widths
  ENDIANNESS_BigEndian ENDIANNESS_LittleEndian upt_lists replicate_lists
  list_update_Cons_numeral byte_simps

lemmas layout_simps = big_endian_def little_endian_def wire_bytes_def flip_byte0_def
  be_word_def le_word_def wire_word_def

section \<open>What the integer codecs compute\<close>

lemma from_int8_parsed:
  "from_int8 True args =
     (case parse_i args of
        None \<Rightarrow> Inl TypeError
      | Some input \<Rightarrow>
          if input <s - 128 \<or> 127 <s input then Inl RangeError
          else Inr [ucast input XOR 0x80])"
  by (simp add: from_int8_def run_simps split: option.split)

lemma from_uint8_parsed:
  "from_uint8 True args =
     (case parse_i args of
        None \<Rightarrow> Inl TypeError
      | Some input \<Rightarrow>
          if input <s 0 \<or> 255 <s input then Inl RangeError
          else Inr [ucast input])"
  by (simp add: from_uint8_def run_simps split: option.split)

lemma from_int16_parsed:
  "from_int16 host True args =
     (case parse_h args of
        None \<Rightarrow> Inl TypeError
      | Some input \<Rightarrow> Inr (flip_byte0 (wire_bytes host 2 input)))"
  by (cases host) (simp_all add: from_int16_def run_simps layout_simps split: option.split)

lemma from_int32_parsed:
  "from_int32 host True args =
     (case parse_i args of
        None \<Rightarrow> Inl TypeError
      | Some input \<Rightarrow> Inr (flip_byte0 (wire_bytes host 4 input)))"
  by (cases host) (simp_all add: from_int32_def run_simps layout_simps split: option.split)

lemma from_int64_parsed:
  "from_int64 host True args =
     (case parse_L args of
        None \<Rightarrow> Inl TypeError
      | Some input \<Rightarrow> Inr (flip_byte0 (wire_bytes host 8 input)))"
  by (cases host) (simp_all add: from_int64_def run_simps layout_simps split: option.split)

lemma from_uint16_parsed:
  "from_uint16 host True args =
     (case parse_i args of
        None \<Rightarrow> Inl TypeError
      | Some input \<Rightarrow>
          if input <s 0 \<or> 65535 <s input then Inl RangeError
          else Inr (wire_bytes host 2 (ucast input :: 16 word)))"
  by (cases host) (simp_all add: from_uint16_def run_simps layout_simps split: option.split)

lemma from_uint32_parsed:
  "from_uint32 host True args =
     (case parse_L args of
        None \<Rightarrow> Inl TypeError
      | Some input \<Rightarrow>
          if input <s 0 \<or> 4294967295 <s input then Inl RangeError
          else Inr (wire_bytes host 4 (ucast input :: 32 word)))"
  by (cases host) (simp_all add: from_uint32_def run_simps layout_simps split: option.split)

lemma from_uint64_parsed:
  "from_uint64 host True args =
     (case PyLong_AsUnsignedLongLong args of
        None \<Rightarrow> Inl TypeError
      | Some input \<Rightarrow> Inr (wire_bytes host 8 input))"
  by (cases host) (simp_all add: from_uint64_def run_simps layout_simps split: option.split)

lemma to_int16_bytes:
  "to_int16 host True (PyBytes bs) =
     (if length bs \<noteq> 2 then Inl LengthError
      else Inr (sint (wire_word host (flip_byte0 bs) :: 16 word)))"
proof (cases "length bs = 2")
  case True
  then obtain b0 b1 where "bs = [b0, b1]"
    using length_2_list by blast
  moreover have "(ucast ((ucast x :: 32 word) OR push_bit 8 (ucast y)) :: 16 word)
      = ucast x OR push_bit 8 (ucast y)" for x y :: byte
    by (rule bit_word_eqI) (auto simp add: bit_simps)
  ultimately show ?thesis
    by (cases host) (simp_all add: to_int16_def parse_y_hash_def run_simps layout_simps)
next
  case False
  then show ?thesis
    by (simp add: to_int16_def parse_y_hash_def widths)
qed

lemma to_uint16_bytes:
  "to_uint16 host True (PyBytes bs) =
     (if length bs \<noteq> 2 then Inl LengthError
      else Inr (uint (wire_word host bs :: 16 word)))"
proof (cases "length bs = 2")
  case True
  then obtain b0 b1 where "bs = [b0, b1]"
    using length_2_list by blast
  moreover have "(ucast ((ucast x :: 32 word) OR push_bit 8 (ucast y)) :: 16 word)
      = ucast x OR push_bit 8 (ucast y)" for x y :: byte
    by (rule bit_word_eqI) (auto simp add: bit_simps)
  ultimately show ?thesis
    by (cases host) (simp_all add: to_uint16_def parse_y_hash_def run_simps layout_simps)
next
  case False
  then show ?thesis
    by (simp add: to_uint16_def parse_y_hash_def widths)
qed

lemma to_int32_bytes:
  "to_int32 host True (PyBytes bs) =
     (if length bs \<noteq> 4 then Inl LengthError
      else Inr (sint (wire_word host (flip_byte0 bs) :: 32 word)))"
proof (cases "length bs = 4")
  case True
  then obtain b0 b1 b2 b3 where "bs = [b0, b1, b2, b3]"
    using length_4_list by blast
  then show ?thesis
    by (cases host) (simp_all add: to_int32_def parse_y_hash_def run_simps layout_simps)
next
  case False
  then show ?thesis
    by (simp add: to_int32_def parse_y_hash_def widths)
qed

lemma to_uint32_bytes:
  "to_uint32 host True (PyBytes bs) =
     (if length bs \<noteq> 4 then Inl LengthError
      else Inr (uint (wire_word host bs :: 32 word)))"
proof (cases "length bs = 4")
  case True
  then obtain b0 b1 b2 b3 where "bs = [b0, b1, b2, b3]"
    using length_4_list by blast
  then show ?thesis
    by (cases host) (simp_all add: to_uint32_def parse_y_hash_def run_simps layout_simps)
next
  case False
  then show ?thesis
    by (simp add: to_uint32_def parse_y_hash_def widths)
qed

lemma to_int64_bytes:
  "to_int64 host True (PyBytes bs) =
     (if length bs \<noteq> 8 then Inl LengthError
      else Inr (sint (wire_word host (flip_byte0 bs) :: 64 word)))"
proof (cases "length bs = 8")
  case True
  then obtain b0 b1 b2 b3 b4 b5 b6 b7 where "bs = [b0, b1, b2, b3, b4, b5, b6, b7]"
    using length_8_list by blast
  then show ?thesis
    by (cases host) (simp_all add: to_int64_def parse_y_hash_def run_simps layout_simps)
next
  case False
  then show ?thesis
    by (simp add: to_int64_def parse_y_hash_def widths)
qed

lemma to_uint64_bytes:
  "to_uint64 host True (PyBytes bs) =
     (if length bs \<noteq> 8 then Inl LengthError
      else Inr (uint (wire_word host bs :: 64 word)))"
proof (cases "length bs = 8")
  case True
  then obtain b0 b1 b2 b3 b4 b5 b6 b7 where "bs = [b0, b1, b2, b3, b4, b5, b6, b7]"
    using length_8_list by blast
  then show ?thesis
    by (cases host) (simp_all add: to_uint64_def parse_y_hash_def run_simps layout_simps)
next
  case False
  then show ?thesis
    by (simp add: to_uint64_def parse_y_hash_def widths)
qed


section \<open>What the float codecs compute\<close>

lemma from_float32_parsed:
  "from_float32 host True (Some x) =
     Inr (if float_ge_zero binary32_fraction x
          then (big_endian 4 x)[0 := big_endian 4 x ! 0 OR 0x80]
          else map NOT (big_endian 4 x))"
  by (cases host) (simp_all add: from_float32_def object_bytes_def run_simps layout_simps)

lemma from_float64_parsed:
  "from_float64 host True (Some x) =
     Inr (if float_ge_zero binary64_fraction x
          then (big_endian 8 x)[0 := big_endian 8 x ! 0 OR 0x80]
          else map NOT (big_endian 8 x))"
  by (cases host) (simp_all add: from_float64_def object_bytes_def run_simps layout_simps)

lemma object_value_4:
  "(object_value BigEndian [b0, b1, b2, b3] :: 32 word) = be_word [b0, b1, b2, b3]"
  "(object_value LittleEndian [b3, b2, b1, b0] :: 32 word) = be_word [b0, b1, b2, b3]"
  by (simp_all add: object_value_def be_word_def upt_lists)
    (rule bit_word_eqI; auto simp add: bit_simps)+

lemma object_value_8:
  "(object_value BigEndian [b0, b1, b2, b3, b4, b5, b6, b7] :: 64 word)
     = be_word [b0, b1, b2, b3, b4, b5, b6, b7]"
  "(object_value LittleEndian [b7, b6, b5, b4, b3, b2, b1, b0] :: 64 word)
     = be_word [b0, b1, b2, b3, b4, b5, b6, b7]"
  by (simp_all add: object_value_def be_word_def upt_lists)
    (rule bit_word_eqI; auto simp add: bit_simps)+

lemma to_float32_bytes:
  "to_float32 host True (PyBytes bs) =
     (if length bs \<noteq> 4 then Inl LengthError
      else Inr (if bs ! 0 AND 0x80 \<noteq> 0 then be_word (flip_byte0 bs) else be_word (map NOT bs)))"
proof (cases "length bs = 4")
  case True
  then obtain b0 b1 b2 b3 where "bs = [b0, b1, b2, b3]"
    using length_4_list by blast
  then show ?thesis
    by (cases host)
      (simp_all add: to_float32_def parse_y_hash_def run_simps flip_byte0_def object_value_4)
next
  case False
  then show ?thesis
    by (simp add: to_float32_def parse_y_hash_def widths)
qed

lemma to_float64_bytes:
  "to_float64 host True (PyBytes bs) =
     (if length bs \<noteq> 8 then Inl LengthError
      else Inr (if bs ! 0 AND 0x80 \<noteq> 0 then be_word (flip_byte0 bs) else be_word (map NOT bs)))"
proof (cases "length bs = 8")
  case True
  then obtain b0 b1 b2 b3 b4 b5 b6 b7 where "bs = [b0, b1, b2, b3, b4, b5, b6, b7]"
    using length_8_list by blast
  then show ?thesis
    by (cases host)
      (simp_all add: to_float64_def parse_y_hash_def run_simps flip_byte0_def object_value_8)
next
  case False
  then show ?thesis
    by (simp add: to_float64_def parse_y_hash_def widths)
qed

section \<open>Layouts\<close>

lemma length_big_endian [simp]: "length (big_endian w x) = w"
  and length_little_endian [simp]: "length (little_endian w x) = w"
  by (simp_all add: big_endian_def little_endian_def)

lemma length_wire_bytes [simp]: "length (wire_bytes host w x) = w"
  by (cases host) (simp_all add: wire_bytes_def)

lemma length_flip_byte0 [simp]: "length (flip_byte0 bs) = length bs"
  by (simp add: flip_byte0_def)

lemma flip_byte0_flip_byte0: "flip_byte0 (flip_byte0 bs) = bs"
  by (cases bs) (simp_all add: flip_byte0_def xor.assoc)

lemma bit_fold_or:
  fixes f :: "nat \<Rightarrow> byte"
  shows "bit (fold (\<lambda>i acc. acc OR push_bit (i * 8) (ucast (f i))) [0..<k] (0 :: 'a::len word)) n
     \<longleftrightarrow> n < LENGTH('a) \<and> n div 8 < k \<and> bit (f (n div 8)) (n mod 8)"
proof (induction k)
  case 0
  then show ?case by simp
next
  case (Suc k)
  have "k * 8 \<le> n \<and> n - k * 8 < 8 \<longleftrightarrow> n div 8 = k"
    by auto
  moreover have "n div 8 = k \<Longrightarrow> n - k * 8 = n mod 8"
    by (auto simp add: modulo_nat_def)
  moreover have "bit (f k) m \<Longrightarrow> m < 8" for m
    using bit_imp_le_length [of "f k" m] by simp
  ultimately show ?case
    using Suc by (auto simp add: bit_simps less_Suc_eq)
qed

lemma bit_le_word:
  "bit (le_word bs :: 'a::len word) n
     \<longleftrightarrow> n < LENGTH('a) \<and> n div 8 < length bs \<and> bit (bs ! (n div 8)) (n mod 8)"
  unfolding le_word_def by (rule bit_fold_or)

lemma bit_be_word:
  "bit (be_word bs :: 'a::len word) n
     \<longleftrightarrow> n < LENGTH('a) \<and> n div 8 < length bs \<and> bit (bs ! (length bs - 1 - n div 8)) (n mod 8)"
  unfolding be_word_def by (rule bit_fold_or)

lemma bit_ucast_drop_bit_byte:
  "bit (ucast (drop_bit k (x :: 'a::len word)) :: byte) j \<longleftrightarrow> j < 8 \<and> bit x (k + j)"
  by (auto simp add: bit_simps)

lemma le_word_little_endian:
  assumes "LENGTH('a::len) \<le> 8 * w"
  shows "le_word (little_endian w x) = (x :: 'a word)"
proof (rule bit_word_eqI)
  fix n assume "n < LENGTH('a)"
  with assms have "n div 8 < w" by auto
  then show "bit (le_word (little_endian w x) :: 'a word) n \<longleftrightarrow> bit x n"
    using \<open>n < LENGTH('a)\<close>
    by (simp add: bit_le_word little_endian_def bit_ucast_drop_bit_byte)
qed

lemma be_word_big_endian:
  assumes "LENGTH('a::len) \<le> 8 * w"
  shows "be_word (big_endian w x) = (x :: 'a word)"
proof (rule bit_word_eqI)
  fix n assume "n < LENGTH('a)"
  with assms have "n div 8 < w" by auto
  then show "bit (be_word (big_endian w x) :: 'a word) n \<longleftrightarrow> bit x n"
    using \<open>n < LENGTH('a)\<close>
    by (simp add: bit_be_word big_endian_def bit_ucast_drop_bit_byte)
qed

lemma little_endian_le_word:
  assumes "8 * length bs \<le> LENGTH('a::len)"
  shows "little_endian (length bs) (le_word bs :: 'a word) = bs"
proof (rule nth_equalityI)
  show "length (little_endian (length bs) (le_word bs :: 'a word)) = length bs"
    by simp
next
  fix i assume "i < length (little_endian (length bs) (le_word bs :: 'a word))"
  then have i: "i < length bs" by simp
  show "little_endian (length bs) (le_word bs :: 'a word) ! i = bs ! i"
  proof (rule bit_word_eqI)
    fix j assume "j < LENGTH(8)"
    then have j: "j < 8" by simp
    with i assms have "8 * i + j < LENGTH('a)" by simp
    with i j show "bit (little_endian (length bs) (le_word bs :: 'a word) ! i) j \<longleftrightarrow> bit (bs ! i) j"
      by (simp add: little_endian_def bit_ucast_drop_bit_byte bit_le_word)
  qed
qed

lemma big_endian_be_word:
  assumes "8 * length bs \<le> LENGTH('a::len)"
  shows "big_endian (length bs) (be_word bs :: 'a word) = bs"
proof (rule nth_equalityI)
  show "length (big_endian (length bs) (be_word bs :: 'a word)) = length bs"
    by simp
next
  fix i assume "i < length (big_endian (length bs) (be_word bs :: 'a word))"
  then have i: "i < length bs" by simp
  show "big_endian (length bs) (be_word bs :: 'a word) ! i = bs ! i"
  proof (rule bit_word_eqI)
    fix j assume "j < LENGTH(8)"
    then have j: "j < 8" by simp
    from i have "8 * (length bs - 1 - i) + j < 8 * length bs"
      using j by auto
    with assms have "8 * (length bs - 1 - i) + j < LENGTH('a)" by simp
    moreover have "(8 * (length bs - 1 - i) + j) div 8 = length bs - 1 - i"
      using j by simp
    moreover have "length bs - 1 - (length bs - 1 - i) = i"
      using i by simp
    moreover have "length bs - Suc i < length bs"
      using i by simp
    ultimately show "bit (big_endian (length bs) (be_word bs :: 'a word) ! i) j \<longleftrightarrow> bit (bs ! i) j"
      using i j by (simp add: big_endian_def bit_ucast_drop_bit_byte bit_be_word)
  qed
qed

lemma wire_word_wire_bytes:
  assumes "LENGTH('a::len) \<le> 8 * w"
  shows "wire_word host (wire_bytes host w x) = (x :: 'a word)"
  using assms
  by (cases host) (simp_all add: wire_word_def wire_bytes_def le_word_little_endian be_word_big_endian)

lemma wire_bytes_wire_word:
  assumes "8 * length bs \<le> LENGTH('a::len)"
  shows "wire_bytes host (length bs) (wire_word host bs :: 'a word) = bs"
  using assms
  by (cases host) (simp_all add: wire_word_def wire_bytes_def little_endian_le_word big_endian_be_word)

section \<open>Parsing\<close>

lemma word_of_int_sint [simp]: "word_of_int (sint w) = (w :: 'a::len word)"
  by (simp flip: scast_eq)

lemma sint_word_of_int_range:
  assumes "- (2 ^ (LENGTH('a::len) - 1)) \<le> n" "n < 2 ^ (LENGTH('a) - 1)"
  shows "sint (word_of_int n :: 'a word) = n"
  using assms by (simp add: sint_sbintrunc' signed_take_bit_int_eq_self)

lemma uint_word_of_int_range:
  assumes "0 \<le> n" "n < 2 ^ LENGTH('a::len)"
  shows "uint (word_of_int n :: 'a word) = n"
  using assms by (simp add: uint_word_of_int_eq take_bit_int_eq_self)

section \<open>Fixed width\<close>



lemma float_encoders_unparsed:
  "from_float32 host mem None = Inl TypeError" "from_float64 host mem None = Inl TypeError"
  by (simp_all add: from_float32_def from_float64_def)





section \<open>The encoders on Python integers\<close>

lemma ucast_word_of_int_down:
  assumes "LENGTH('b::len) \<le> LENGTH('a::len)"
  shows "(ucast (word_of_int n :: 'a word) :: 'b word) = word_of_int n"
  using assms by (intro bit_word_eqI) (auto simp add: bit_simps)

lemma from_int8_PyLong:
  "from_int8 True (PyLong n) =
     (if - 128 \<le> n \<and> n \<le> 127 then Inr [word_of_int n XOR 0x80]
      else if - (2 ^ 31) \<le> n \<and> n \<le> 2 ^ 31 - 1 then Inl RangeError
      else Inl TypeError)"
  using sint_word_of_int_range [where 'a = 32, of n]
  by (auto simp add: from_int8_parsed parse_i_def word_sless_alt ucast_word_of_int_down)

lemma from_uint8_PyLong:
  "from_uint8 True (PyLong n) =
     (if 0 \<le> n \<and> n \<le> 255 then Inr [word_of_int n]
      else if - (2 ^ 31) \<le> n \<and> n \<le> 2 ^ 31 - 1 then Inl RangeError
      else Inl TypeError)"
  using sint_word_of_int_range [where 'a = 32, of n]
  by (auto simp add: from_uint8_parsed parse_i_def word_sless_alt ucast_word_of_int_down)

lemma from_int16_PyLong:
  "from_int16 host True (PyLong n) =
     (if - (2 ^ 15) \<le> n \<and> n \<le> 2 ^ 15 - 1
      then Inr (flip_byte0 (wire_bytes host 2 (word_of_int n :: 16 word)))
      else Inl TypeError)"
  by (simp add: from_int16_parsed parse_h_def)

lemma from_uint16_PyLong:
  "from_uint16 host True (PyLong n) =
     (if 0 \<le> n \<and> n \<le> 65535 then Inr (wire_bytes host 2 (word_of_int n :: 16 word))
      else if - (2 ^ 31) \<le> n \<and> n \<le> 2 ^ 31 - 1 then Inl RangeError
      else Inl TypeError)"
  using sint_word_of_int_range [where 'a = 32, of n]
  by (auto simp add: from_uint16_parsed parse_i_def word_sless_alt ucast_word_of_int_down)

lemma from_int32_PyLong:
  "from_int32 host True (PyLong n) =
     (if - (2 ^ 31) \<le> n \<and> n \<le> 2 ^ 31 - 1
      then Inr (flip_byte0 (wire_bytes host 4 (word_of_int n :: 32 word)))
      else Inl TypeError)"
  by (simp add: from_int32_parsed parse_i_def)

lemma from_uint32_PyLong:
  "from_uint32 host True (PyLong n) =
     (if 0 \<le> n \<and> n \<le> 4294967295 then Inr (wire_bytes host 4 (word_of_int n :: 32 word))
      else if - (2 ^ 63) \<le> n \<and> n \<le> 2 ^ 63 - 1 then Inl RangeError
      else Inl TypeError)"
  using sint_word_of_int_range [where 'a = 64, of n]
  by (auto simp add: from_uint32_parsed parse_L_def word_sless_alt ucast_word_of_int_down)

lemma from_int64_PyLong:
  "from_int64 host True (PyLong n) =
     (if - (2 ^ 63) \<le> n \<and> n \<le> 2 ^ 63 - 1
      then Inr (flip_byte0 (wire_bytes host 8 (word_of_int n :: 64 word)))
      else Inl TypeError)"
  by (simp add: from_int64_parsed parse_L_def)

lemma from_uint64_PyLong:
  "from_uint64 host True (PyLong n) =
     (if 0 \<le> n \<and> n \<le> 2 ^ 64 - 1 then Inr (wire_bytes host 8 (word_of_int n :: 64 word))
      else Inl TypeError)"
  by (simp add: from_uint64_parsed PyLong_AsUnsignedLongLong_def)

lemma to_int8_bytes:
  "to_int8 (PyBytes bs) = (if length bs \<noteq> 1 then Inl LengthError else Inr (sint (bs ! 0 XOR 0x80)))"
  by (simp add: to_int8_def parse_y_hash_def widths)

lemma to_uint8_bytes:
  "to_uint8 (PyBytes bs) = (if length bs \<noteq> 1 then Inl LengthError else Inr (uint (bs ! 0)))"
  by (simp add: to_uint8_def parse_y_hash_def widths)

lemma length_1_list: "length bs = 1 \<Longrightarrow> bs = [bs ! 0]"
  by (cases bs) simp_all

section \<open>Decoding and encoding again\<close>

lemma int8_decode_encode:
  assumes "length bs = 1"
  shows "\<exists>v. to_int8 (PyBytes bs) = Inr v \<and> from_int8 True (PyLong v) = Inr bs"
proof -
  let ?d = "bs ! 0 XOR 0x80"
  have "- 128 \<le> sint ?d" "sint ?d \<le> 127"
    using sint_ge [of ?d] sint_lt [of ?d] by simp_all
  moreover have "[?d XOR 0x80] = bs"
    using length_1_list [OF assms] by (simp add: xor.assoc)
  ultimately show ?thesis
    using assms by (simp add: to_int8_bytes from_int8_PyLong)
qed

lemma uint8_decode_encode:
  assumes "length bs = 1"
  shows "\<exists>v. to_uint8 (PyBytes bs) = Inr v \<and> from_uint8 True (PyLong v) = Inr bs"
proof -
  let ?d = "bs ! 0"
  have "0 \<le> uint ?d" "uint ?d \<le> 255"
    using uint_lt2p [of ?d] by simp_all
  moreover have "[?d] = bs"
    using length_1_list [OF assms] by simp
  ultimately show ?thesis
    using assms by (simp add: to_uint8_bytes from_uint8_PyLong)
qed

lemma int16_decode_encode:
  assumes "length bs = 2"
  shows "\<exists>v. to_int16 host True (PyBytes bs) = Inr v \<and> from_int16 host True (PyLong v) = Inr bs"
proof -
  let ?d = "wire_word host (flip_byte0 bs) :: 16 word"
  have "- (2 ^ 15) \<le> sint ?d" "sint ?d \<le> 2 ^ 15 - 1"
    using sint_ge [of ?d] sint_lt [of ?d] by simp_all
  moreover have "flip_byte0 (wire_bytes host 2 ?d) = bs"
    using wire_bytes_wire_word [where 'a = 16, of "flip_byte0 bs" host] assms
    by (simp add: flip_byte0_flip_byte0)
  ultimately show ?thesis
    using assms by (simp add: to_int16_bytes from_int16_PyLong)
qed

lemma uint16_decode_encode:
  assumes "length bs = 2"
  shows "\<exists>v. to_uint16 host True (PyBytes bs) = Inr v \<and> from_uint16 host True (PyLong v) = Inr bs"
proof -
  let ?d = "wire_word host bs :: 16 word"
  have "0 \<le> uint ?d" "uint ?d \<le> 65535"
    using uint_lt2p [of ?d] by simp_all
  moreover have "wire_bytes host 2 ?d = bs"
    using wire_bytes_wire_word [where 'a = 16, of bs host] assms by simp
  ultimately show ?thesis
    using assms by (simp add: to_uint16_bytes from_uint16_PyLong)
qed

lemma int32_decode_encode:
  assumes "length bs = 4"
  shows "\<exists>v. to_int32 host True (PyBytes bs) = Inr v \<and> from_int32 host True (PyLong v) = Inr bs"
proof -
  let ?d = "wire_word host (flip_byte0 bs) :: 32 word"
  have "- (2 ^ 31) \<le> sint ?d" "sint ?d \<le> 2 ^ 31 - 1"
    using sint_ge [of ?d] sint_lt [of ?d] by simp_all
  moreover have "flip_byte0 (wire_bytes host 4 ?d) = bs"
    using wire_bytes_wire_word [where 'a = 32, of "flip_byte0 bs" host] assms
    by (simp add: flip_byte0_flip_byte0)
  ultimately show ?thesis
    using assms by (simp add: to_int32_bytes from_int32_PyLong)
qed

lemma uint32_decode_encode:
  assumes "length bs = 4"
  shows "\<exists>v. to_uint32 host True (PyBytes bs) = Inr v \<and> from_uint32 host True (PyLong v) = Inr bs"
proof -
  let ?d = "wire_word host bs :: 32 word"
  have "0 \<le> uint ?d" "uint ?d \<le> 4294967295"
    using uint_lt2p [of ?d] by simp_all
  moreover have "wire_bytes host 4 ?d = bs"
    using wire_bytes_wire_word [where 'a = 32, of bs host] assms by simp
  ultimately show ?thesis
    using assms by (simp add: to_uint32_bytes from_uint32_PyLong)
qed

lemma int64_decode_encode:
  assumes "length bs = 8"
  shows "\<exists>v. to_int64 host True (PyBytes bs) = Inr v \<and> from_int64 host True (PyLong v) = Inr bs"
proof -
  let ?d = "wire_word host (flip_byte0 bs) :: 64 word"
  have "- (2 ^ 63) \<le> sint ?d" "sint ?d \<le> 2 ^ 63 - 1"
    using sint_ge [of ?d] sint_lt [of ?d] by simp_all
  moreover have "flip_byte0 (wire_bytes host 8 ?d) = bs"
    using wire_bytes_wire_word [where 'a = 64, of "flip_byte0 bs" host] assms
    by (simp add: flip_byte0_flip_byte0)
  ultimately show ?thesis
    using assms by (simp add: to_int64_bytes from_int64_PyLong)
qed

lemma uint64_decode_encode:
  assumes "length bs = 8"
  shows "\<exists>v. to_uint64 host True (PyBytes bs) = Inr v \<and> from_uint64 host True (PyLong v) = Inr bs"
proof -
  let ?d = "wire_word host bs :: 64 word"
  have "0 \<le> uint ?d" "uint ?d \<le> 2 ^ 64 - 1"
    using uint_lt2p [of ?d] by simp_all
  moreover have "wire_bytes host 8 ?d = bs"
    using wire_bytes_wire_word [where 'a = 64, of bs host] assms by simp
  ultimately show ?thesis
    using assms by (simp add: to_uint64_bytes from_uint64_PyLong)
qed

text \<open>
  Claim C10. For every integer domain and every byte string of the domain's width,
  decoding succeeds and encoding the decoded value gives the byte string back, on either
  machine (the buffers being allocated): the integer codecs are bijections between the
  domain and the byte strings of that width.
\<close>

theorem integer_decode_encode:
  "(length bs = 1 \<longrightarrow>
      (\<exists>v. to_int8 (PyBytes bs) = Inr v \<and> from_int8 True (PyLong v) = Inr bs) \<and>
      (\<exists>v. to_uint8 (PyBytes bs) = Inr v \<and> from_uint8 True (PyLong v) = Inr bs)) \<and>
   (length bs = 2 \<longrightarrow>
      (\<exists>v. to_int16 host True (PyBytes bs) = Inr v \<and> from_int16 host True (PyLong v) = Inr bs) \<and>
      (\<exists>v. to_uint16 host True (PyBytes bs) = Inr v \<and> from_uint16 host True (PyLong v) = Inr bs)) \<and>
   (length bs = 4 \<longrightarrow>
      (\<exists>v. to_int32 host True (PyBytes bs) = Inr v \<and> from_int32 host True (PyLong v) = Inr bs) \<and>
      (\<exists>v. to_uint32 host True (PyBytes bs) = Inr v \<and> from_uint32 host True (PyLong v) = Inr bs)) \<and>
   (length bs = 8 \<longrightarrow>
      (\<exists>v. to_int64 host True (PyBytes bs) = Inr v \<and> from_int64 host True (PyLong v) = Inr bs) \<and>
      (\<exists>v. to_uint64 host True (PyBytes bs) = Inr v \<and> from_uint64 host True (PyLong v) = Inr bs))"
  by (intro conjI impI int8_decode_encode uint8_decode_encode int16_decode_encode
      uint16_decode_encode int32_decode_encode uint32_decode_encode int64_decode_encode
      uint64_decode_encode)

text \<open>The theorem at one byte string of each width, on both machines.\<close>

theorem integer_decode_encode_witness:
  "(length [0x12 :: byte] = 1 \<and>
      to_int8 (PyBytes [0x12]) = Inr (- 110) \<and> from_int8 True (PyLong (- 110)) = Inr [0x12] \<and>
      to_uint8 (PyBytes [0x12]) = Inr 18 \<and> from_uint8 True (PyLong 18) = Inr [0x12]) \<and>
   (length [0x12, 0x34 :: byte] = 2 \<and>
      to_int16 BigEndian True (PyBytes [0x12, 0x34]) = Inr 13458 \<and>
      from_int16 BigEndian True (PyLong 13458) = Inr [0x12, 0x34] \<and>
      to_uint16 LittleEndian True (PyBytes [0x12, 0x34]) = Inr 4660 \<and>
      from_uint16 LittleEndian True (PyLong 4660) = Inr [0x12, 0x34]) \<and>
   (length [0x12, 0x34, 0x56, 0x78 :: byte] = 4 \<and>
      to_int32 LittleEndian True (PyBytes [0x12, 0x34, 0x56, 0x78]) = Inr (- 1842063752) \<and>
      from_int32 LittleEndian True (PyLong (- 1842063752)) = Inr [0x12, 0x34, 0x56, 0x78] \<and>
      to_uint32 BigEndian True (PyBytes [0x12, 0x34, 0x56, 0x78]) = Inr 2018915346 \<and>
      from_uint32 BigEndian True (PyLong 2018915346) = Inr [0x12, 0x34, 0x56, 0x78]) \<and>
   (length [0x12, 0x34, 0x56, 0x78, 0x9A, 0xBC, 0xDE, 0xF0 :: byte] = 8 \<and>
      to_int64 BigEndian True (PyBytes [0x12, 0x34, 0x56, 0x78, 0x9A, 0xBC, 0xDE, 0xF0])
        = Inr (- 1090226688147180398) \<and>
      from_int64 BigEndian True (PyLong (- 1090226688147180398))
        = Inr [0x12, 0x34, 0x56, 0x78, 0x9A, 0xBC, 0xDE, 0xF0] \<and>
      to_uint64 LittleEndian True (PyBytes [0x12, 0x34, 0x56, 0x78, 0x9A, 0xBC, 0xDE, 0xF0])
        = Inr 1311768467463790320 \<and>
      from_uint64 LittleEndian True (PyLong 1311768467463790320)
        = Inr [0x12, 0x34, 0x56, 0x78, 0x9A, 0xBC, 0xDE, 0xF0])"
proof -
  have d: "to_int8 (PyBytes [0x12]) = Inr (- 110)" "to_uint8 (PyBytes [0x12]) = Inr 18"
    "to_int16 BigEndian True (PyBytes [0x12, 0x34]) = Inr 13458"
    "to_uint16 LittleEndian True (PyBytes [0x12, 0x34]) = Inr 4660"
    "to_int32 LittleEndian True (PyBytes [0x12, 0x34, 0x56, 0x78]) = Inr (- 1842063752)"
    "to_uint32 BigEndian True (PyBytes [0x12, 0x34, 0x56, 0x78]) = Inr 2018915346"
    "to_int64 BigEndian True (PyBytes [0x12, 0x34, 0x56, 0x78, 0x9A, 0xBC, 0xDE, 0xF0])
       = Inr (- 1090226688147180398)"
    "to_uint64 LittleEndian True (PyBytes [0x12, 0x34, 0x56, 0x78, 0x9A, 0xBC, 0xDE, 0xF0])
       = Inr 1311768467463790320"
    by code_simp+
  show ?thesis
    using integer_decode_encode [of "[0x12]" BigEndian]
      integer_decode_encode [of "[0x12, 0x34]" BigEndian]
      integer_decode_encode [of "[0x12, 0x34]" LittleEndian]
      integer_decode_encode [of "[0x12, 0x34, 0x56, 0x78]" LittleEndian]
      integer_decode_encode [of "[0x12, 0x34, 0x56, 0x78]" BigEndian]
      integer_decode_encode [of "[0x12, 0x34, 0x56, 0x78, 0x9A, 0xBC, 0xDE, 0xF0]" BigEndian]
      integer_decode_encode [of "[0x12, 0x34, 0x56, 0x78, 0x9A, 0xBC, 0xDE, 0xF0]" LittleEndian]
    by (simp add: d)
qed

section \<open>Encoding and decoding again\<close>

lemma int8_round_trip:
  assumes "- 128 \<le> n" "n \<le> 127"
  shows "\<exists>bs. from_int8 True (PyLong n) = Inr bs \<and> to_int8 (PyBytes bs) = Inr n"
  using assms sint_word_of_int_range [where 'a = 8, of n]
  by (simp add: from_int8_PyLong to_int8_bytes xor.assoc)

lemma uint8_round_trip:
  assumes "0 \<le> n" "n \<le> 255"
  shows "\<exists>bs. from_uint8 True (PyLong n) = Inr bs \<and> to_uint8 (PyBytes bs) = Inr n"
  using assms uint_word_of_int_range [where 'a = 8, of n]
  by (simp add: from_uint8_PyLong to_uint8_bytes)

lemma int16_round_trip:
  assumes "- 32768 \<le> n" "n \<le> 32767"
  shows "\<exists>bs. from_int16 host True (PyLong n) = Inr bs \<and> to_int16 host True (PyBytes bs) = Inr n"
  using assms sint_word_of_int_range [where 'a = 16, of n]
  by (simp add: from_int16_PyLong to_int16_bytes flip_byte0_flip_byte0 wire_word_wire_bytes)

lemma uint16_round_trip:
  assumes "0 \<le> n" "n \<le> 65535"
  shows "\<exists>bs. from_uint16 host True (PyLong n) = Inr bs \<and> to_uint16 host True (PyBytes bs) = Inr n"
  using assms uint_word_of_int_range [where 'a = 16, of n]
  by (simp add: from_uint16_PyLong to_uint16_bytes wire_word_wire_bytes)

lemma int32_round_trip:
  assumes "- 2147483648 \<le> n" "n \<le> 2147483647"
  shows "\<exists>bs. from_int32 host True (PyLong n) = Inr bs \<and> to_int32 host True (PyBytes bs) = Inr n"
  using assms sint_word_of_int_range [where 'a = 32, of n]
  by (simp add: from_int32_PyLong to_int32_bytes flip_byte0_flip_byte0 wire_word_wire_bytes)

lemma uint32_round_trip:
  assumes "0 \<le> n" "n \<le> 4294967295"
  shows "\<exists>bs. from_uint32 host True (PyLong n) = Inr bs \<and> to_uint32 host True (PyBytes bs) = Inr n"
  using assms uint_word_of_int_range [where 'a = 32, of n]
  by (simp add: from_uint32_PyLong to_uint32_bytes wire_word_wire_bytes)

lemma int64_round_trip:
  assumes "- 9223372036854775808 \<le> n" "n \<le> 9223372036854775807"
  shows "\<exists>bs. from_int64 host True (PyLong n) = Inr bs \<and> to_int64 host True (PyBytes bs) = Inr n"
  using assms sint_word_of_int_range [where 'a = 64, of n]
  by (simp add: from_int64_PyLong to_int64_bytes flip_byte0_flip_byte0 wire_word_wire_bytes)

lemma uint64_round_trip:
  assumes "0 \<le> n" "n \<le> 18446744073709551615"
  shows "\<exists>bs. from_uint64 host True (PyLong n) = Inr bs \<and> to_uint64 host True (PyBytes bs) = Inr n"
  using assms uint_word_of_int_range [where 'a = 64, of n]
  by (simp add: from_uint64_PyLong to_uint64_bytes wire_word_wire_bytes)

section \<open>Floats as bit patterns\<close>

lemma uint_float_magnitude_eq_0 [simp]: "uint (float_magnitude x) = 0 \<longleftrightarrow> float_magnitude x = 0"
  by (simp add: uint_0_iff)

lemma float_key_0 [simp]: "float_key (0 :: 'a::len word) = 0"
  by (simp add: float_key_def float_magnitude_def)

lemma float_is_nan_0 [simp]: "\<not> float_is_nan fb (0 :: 'a::len word)"
  by (simp add: float_is_nan_def float_fraction_def)

lemma float_key_nonneg: "0 \<le> float_key x \<longleftrightarrow> \<not> float_sign x \<or> float_magnitude x = 0"
  by (auto simp add: float_key_def)

lemma float_ge_zero_iff:
  "float_ge_zero fb x \<longleftrightarrow> \<not> float_is_nan fb x \<and> (\<not> float_sign x \<or> float_magnitude x = 0)"
  using float_key_nonneg [of x]
  by (auto simp add: float_ge_zero_def float_less_def float_eq_def)

lemma float_lt_zero_iff:
  "float_lt_zero fb x \<longleftrightarrow> \<not> float_is_nan fb x \<and> float_sign x \<and> float_magnitude x \<noteq> 0"
  using float_key_nonneg [of x]
  by (auto simp add: float_lt_zero_def float_less_def)

lemma float_lt_zero_not_ge_zero: "float_lt_zero fb x \<Longrightarrow> \<not> float_ge_zero fb x"
  by (simp add: float_lt_zero_iff float_ge_zero_iff)

lemma bit_sign_bit: "bit (sign_bit :: 'a::len word) n \<longleftrightarrow> n = LENGTH('a) - 1"
  by (auto simp add: sign_bit_def bit_simps)

lemma bit_128_int: "bit (128 :: int) j \<longleftrightarrow> j = 7"
proof -
  have "bit ((2 :: int) ^ 7) j \<longleftrightarrow> j = 7"
    unfolding bit_exp_iff by auto
  then show ?thesis by simp
qed

lemma bit_128: "bit (0x80 :: byte) j \<longleftrightarrow> j = 7"
  by (auto simp add: bit_128_int)

lemma bit_big_endian_nth:
  assumes "i < w"
  shows "bit (big_endian w (x :: 'a::len word) ! i) j \<longleftrightarrow> j < 8 \<and> bit x (8 * (w - 1 - i) + j)"
  using assms by (simp add: big_endian_def bit_ucast_drop_bit_byte)

lemma top_position:
  fixes i j w :: nat
  assumes "i < w" "j < 8"
  shows "8 * (w - 1 - i) + j = 8 * w - 1 \<longleftrightarrow> i = 0 \<and> j = 7"
  using assms by auto

lemma big_endian_or_sign:
  assumes "LENGTH('a::len) = 8 * w"
  shows "(big_endian w x)[0 := big_endian w x ! 0 OR 0x80] = big_endian w (x OR sign_bit :: 'a word)"
proof (rule nth_equalityI)
  fix i assume "i < length ((big_endian w x)[0 := big_endian w x ! 0 OR 0x80])"
  then have i: "i < w" by simp
  show "(big_endian w x)[0 := big_endian w x ! 0 OR 0x80] ! i = big_endian w (x OR sign_bit) ! i"
  proof (rule bit_word_eqI)
    fix j assume "j < LENGTH(8)"
    then have j: "j < 8" by simp
    show "bit ((big_endian w x)[0 := big_endian w x ! 0 OR 0x80] ! i) j
        \<longleftrightarrow> bit (big_endian w (x OR sign_bit) ! i) j"
      using i j top_position [OF i j] assms
      by (cases "i = 0")
        (auto simp add: bit_big_endian_nth bit_or_iff bit_128 bit_128_int bit_sign_bit nth_list_update)
  qed
qed simp

lemma big_endian_flip_sign:
  assumes "LENGTH('a::len) = 8 * w"
  shows "flip_byte0 (big_endian w x) = big_endian w (x XOR sign_bit :: 'a word)"
proof (rule nth_equalityI)
  fix i assume "i < length (flip_byte0 (big_endian w x))"
  then have i: "i < w" by simp
  show "flip_byte0 (big_endian w x) ! i = big_endian w (x XOR sign_bit) ! i"
  proof (rule bit_word_eqI)
    fix j assume "j < LENGTH(8)"
    then have j: "j < 8" by simp
    show "bit (flip_byte0 (big_endian w x) ! i) j \<longleftrightarrow> bit (big_endian w (x XOR sign_bit) ! i) j"
      using i j top_position [OF i j] assms
      by (cases "i = 0")
        (auto simp add: flip_byte0_def bit_big_endian_nth bit_xor_iff bit_128 bit_128_int bit_sign_bit
          nth_list_update)
  qed
qed simp

lemma big_endian_not:
  assumes "LENGTH('a::len) = 8 * w"
  shows "map NOT (big_endian w x) = big_endian w (NOT x :: 'a word)"
proof (rule nth_equalityI)
  fix i assume "i < length (map NOT (big_endian w x))"
  then have i: "i < w" by simp
  show "map NOT (big_endian w x) ! i = big_endian w (NOT x) ! i"
  proof (rule bit_word_eqI)
    fix j assume "j < LENGTH(8)"
    then have j: "j < 8" by simp
    from i j have "8 * (w - 1 - i) + j < 8 * w" by auto
    then show "bit (map NOT (big_endian w x) ! i) j \<longleftrightarrow> bit (big_endian w (NOT x) ! i) j"
      using i j assms by (simp add: bit_big_endian_nth bit_not_iff)
  qed
qed simp

lemma from_float32_normalize:
  "from_float32 host True (Some x) = Inr (big_endian 4 (normalize_float binary32_fraction x))"
  by (simp add: from_float32_parsed normalize_float_def big_endian_or_sign big_endian_not)

lemma from_float64_normalize:
  "from_float64 host True (Some x) = Inr (big_endian 8 (normalize_float binary64_fraction x))"
  by (simp add: from_float64_parsed normalize_float_def big_endian_or_sign big_endian_not)

lemma and_128_iff: "b AND 0x80 \<noteq> 0 \<longleftrightarrow> bit b 7" for b :: byte
proof
  assume "b AND 0x80 \<noteq> 0"
  then obtain j where "bit (b AND 0x80) j"
    by (auto simp add: bit_eq_iff)
  then show "bit b 7"
    by (auto simp add: bit_and_iff bit_128 bit_128_int)
next
  assume "bit b 7"
  then have "bit (b AND 0x80) 7"
    by (simp add: bit_and_iff bit_128 bit_128_int)
  show "b AND 0x80 \<noteq> 0"
  proof
    assume "b AND 0x80 = 0"
    with \<open>bit (b AND 0x80) 7\<close> show False by simp
  qed
qed

lemma float_decoder_denormalize:
  assumes "length bs = w" "LENGTH('a::len) = 8 * w"
  shows "(if bs ! 0 AND 0x80 \<noteq> 0 then be_word (flip_byte0 bs) else be_word (map NOT bs))
       = denormalize_float (be_word bs :: 'a word)"
proof -
  let ?y = "be_word bs :: 'a word"
  have w: "0 < w"
    using assms(2) by (cases w) simp_all
  have bs: "bs = big_endian w ?y"
    using big_endian_be_word [where 'a = 'a, of bs] assms by simp
  have "bit (bs ! 0) 7 \<longleftrightarrow> bit ?y (LENGTH('a) - 1)"
  proof -
    have "bit (big_endian w ?y ! 0) 7 \<longleftrightarrow> bit ?y (8 * (w - 1 - 0) + 7)"
      using w by (simp only: bit_big_endian_nth) simp
    moreover have "8 * (w - 1 - 0) + 7 = LENGTH('a) - 1"
      using w assms(2) by simp
    ultimately show ?thesis
      using bs by simp
  qed
  moreover have "be_word (flip_byte0 bs) = ?y XOR sign_bit"
    by (subst bs) (simp add: big_endian_flip_sign [OF assms(2)] be_word_big_endian assms(2))
  moreover have "be_word (map NOT bs) = NOT ?y"
    by (subst bs) (simp add: big_endian_not [OF assms(2)] be_word_big_endian assms(2))
  ultimately show ?thesis
    by (simp add: denormalize_float_def and_128_iff)
qed

lemma to_float32_denormalize:
  "to_float32 host True (PyBytes bs) =
     (if length bs \<noteq> 4 then Inl LengthError else Inr (denormalize_float (be_word bs)))"
  using float_decoder_denormalize [where 'a = 32, of bs 4]
  by (simp add: to_float32_bytes)

lemma to_float64_denormalize:
  "to_float64 host True (PyBytes bs) =
     (if length bs \<noteq> 8 then Inl LengthError else Inr (denormalize_float (be_word bs)))"
  using float_decoder_denormalize [where 'a = 64, of bs 8]
  by (simp add: to_float64_bytes)

lemma float_magnitude_0 [simp]: "float_magnitude 0 = 0"
  by (simp add: float_magnitude_def)

lemma float_magnitude_self:
  assumes "\<not> float_sign x"
  shows "float_magnitude x = x"
proof (rule bit_word_eqI)
  fix n assume n: "n < LENGTH('a)"
  have "bit x n \<Longrightarrow> n < LENGTH('a) - 1"
  proof -
    assume "bit x n"
    with assms have "n \<noteq> LENGTH('a) - 1"
      by (auto simp add: float_sign_def)
    with n show ?thesis by simp
  qed
  then show "bit (float_magnitude x) n \<longleftrightarrow> bit x n"
    by (auto simp add: float_magnitude_def bit_take_bit_iff)
qed

lemma or_xor_sign_bit: "(x OR sign_bit) XOR sign_bit = float_magnitude x"
  unfolding float_magnitude_def
  by (rule bit_word_eqI) (auto simp add: bit_simps bit_sign_bit)

lemma bit_or_sign_bit: "bit (x OR sign_bit :: 'a::len word) (LENGTH('a) - 1)"
  by (simp add: bit_or_iff bit_sign_bit)

lemma denormalize_normalize_float:
  "denormalize_float (normalize_float fb x) =
     (if float_ge_zero fb x then float_magnitude x
      else if float_sign x then x
      else NOT x XOR sign_bit)"
  using bit_or_sign_bit [of x]
  by (simp add: denormalize_float_def normalize_float_def or_xor_sign_bit
      bit_not_iff float_sign_def)

lemma float_round_trip_value:
  assumes "\<not> float_is_nan fb x"
  shows "denormalize_float (normalize_float fb x) = (if float_magnitude x = 0 then 0 else x)"
  using assms float_magnitude_self [of x]
  by (auto simp add: denormalize_normalize_float float_ge_zero_iff)

lemma float_eq_round_trip:
  assumes "\<not> float_is_nan fb x"
  shows "float_eq fb (denormalize_float (normalize_float fb x)) x"
  using assms
  by (auto simp add: float_round_trip_value float_eq_def float_key_def)

lemma float32_round_trip:
  assumes "\<not> float_is_nan binary32_fraction x"
  shows "\<exists>bs y. from_float32 host True (Some x) = Inr bs \<and> to_float32 host True (PyBytes bs) = Inr y
           \<and> float_eq binary32_fraction y x \<and> y = (if float_magnitude x = 0 then 0 else x)"
  using float_eq_round_trip [OF assms] float_round_trip_value [OF assms]
  by (simp add: from_float32_normalize to_float32_denormalize be_word_big_endian)

lemma float64_round_trip:
  assumes "\<not> float_is_nan binary64_fraction x"
  shows "\<exists>bs y. from_float64 host True (Some x) = Inr bs \<and> to_float64 host True (PyBytes bs) = Inr y
           \<and> float_eq binary64_fraction y x \<and> y = (if float_magnitude x = 0 then 0 else x)"
  using float_eq_round_trip [OF assms] float_round_trip_value [OF assms]
  by (simp add: from_float64_normalize to_float64_denormalize be_word_big_endian)

section \<open>The comparison of floats is the comparison of the numbers\<close>

lemma float_units_mono:
  assumes "m1 < m2"
  shows "float_units fb m1 < float_units fb m2"
proof -
  let ?P = "2 ^ fb :: nat"
  let ?e1 = "m1 div ?P" and ?f1 = "m1 mod ?P" and ?e2 = "m2 div ?P" and ?f2 = "m2 mod ?P"
  have f1: "?f1 < ?P" and f2: "?f2 < ?P"
    by simp_all
  have le: "?e1 \<le> ?e2"
    using assms by (simp add: div_le_mono)
  show ?thesis
  proof (cases "?e1 = ?e2")
    case True
    have "?e1 * ?P + ?f1 < ?e2 * ?P + ?f2"
      using assms by (simp only: div_mult_mod_eq)
    with True have "?f1 < ?f2"
      by simp
    with True show ?thesis
      by (simp add: float_units_def)
  next
    case False
    with le have lt: "?e1 < ?e2" by simp
    then have e2: "?e2 \<noteq> 0" by simp
    have lower: "2 ^ (?e2 - 1) * ?P \<le> float_units fb m2"
      using e2 by (simp add: float_units_def)
    have upper: "float_units fb m1 < 2 ^ ?e1 * ?P"
    proof (cases "?e1 = 0")
      case True
      then show ?thesis
        using f1 by (simp add: float_units_def)
    next
      case False
      then obtain k where k: "?e1 = Suc k"
        by (cases "?e1") simp_all
      have "2 ^ k * (?P + ?f1) < 2 ^ k * (?P + ?P)"
        using f1 by simp
      then show ?thesis
        using k by (simp add: float_units_def)
    qed
    have "(2 :: nat) ^ ?e1 \<le> 2 ^ (?e2 - 1)"
      using lt by (intro power_increasing) simp_all
    then have "2 ^ ?e1 * ?P \<le> 2 ^ (?e2 - 1) * ?P"
      by (rule mult_le_mono1)
    with upper lower show ?thesis
      by linarith
  qed
qed

lemma float_units_less_iff: "float_units fb m1 < float_units fb m2 \<longleftrightarrow> m1 < m2"
  using float_units_mono [of m1 m2 fb] float_units_mono [of m2 m1 fb]
  by (cases m1 m2 rule: linorder_cases) auto

lemma float_units_0 [simp]: "float_units fb 0 = 0"
  by (simp add: float_units_def)

lemma float_units_eq_0_iff [simp]: "float_units fb m = 0 \<longleftrightarrow> m = 0"
  using float_units_mono [of 0 m fb] by (cases "m = 0") simp_all

lemma unat_float_exponent:
  "unat (float_exponent fb x) = unat (float_magnitude x) div 2 ^ fb"
  unfolding float_exponent_def unat_drop_bit_eq by (simp add: drop_bit_eq_div)

lemma unat_float_fraction:
  assumes "fb \<le> LENGTH('a::len) - 1"
  shows "unat (float_fraction fb (x :: 'a word)) = unat (float_magnitude x) mod 2 ^ fb"
proof -
  have "take_bit fb x = take_bit fb (take_bit (LENGTH('a) - 1) x)"
    using assms by (simp add: min_def)
  then have "unat (float_fraction fb x) = take_bit fb (unat (float_magnitude x))"
    by (simp add: float_fraction_def float_magnitude_def unsigned_take_bit_eq)
  then show ?thesis
    by (simp add: take_bit_eq_mod)
qed

lemma float_value_units:
  assumes "fb \<le> LENGTH('a::len) - 1"
  shows "float_value fb (x :: 'a word)
     = (if float_sign x then - 1 else 1)
       * (2 / (2 ^ (2 ^ (LENGTH('a) - 2 - fb) - 1) * 2 ^ fb))
       * real (float_units fb (unat (float_magnitude x)))"
proof -
  let ?m = "unat (float_magnitude x)"
  let ?e = "?m div 2 ^ fb" and ?f = "?m mod 2 ^ fb"
  have "(2 :: real) ^ ?e = 2 * 2 ^ (?e - 1)" if "?e \<noteq> 0"
  proof -
    from that obtain k where "?e = Suc k"
      by (cases "?e") simp_all
    then show ?thesis by simp
  qed
  then show ?thesis
    by (simp add: float_value_def Let_def unat_float_exponent unat_float_fraction [OF assms]
        float_units_def field_simps)
qed

lemma signed_units_less:
  fixes ma mb ua ub :: nat
  assumes "ua < ub \<longleftrightarrow> ma < mb" "ub < ua \<longleftrightarrow> mb < ma" "ua = 0 \<longleftrightarrow> ma = 0" "ub = 0 \<longleftrightarrow> mb = 0"
  shows "(if sa then - int ua else int ua) < (if sb then - int ub else int ub)
     \<longleftrightarrow> (if sa then - int ma else int ma) < (if sb then - int mb else int mb)"
  using assms by (cases sa; cases sb) auto

lemma float_value_less_iff_key:
  assumes "fb \<le> LENGTH('a::len) - 1"
  shows "float_value fb (a :: 'a word) < float_value fb (b :: 'a word)
     \<longleftrightarrow> float_key a < float_key b"
proof -
  let ?c = "2 / (2 ^ (2 ^ (LENGTH('a) - 2 - fb) - 1) * 2 ^ fb) :: real"
  let ?ua = "float_units fb (unat (float_magnitude a))"
  let ?ub = "float_units fb (unat (float_magnitude b))"
  have c: "0 < ?c" by simp
  have va: "float_value fb a = ?c * (if float_sign a then - real ?ua else real ?ua)"
    unfolding float_value_units [OF assms] by (cases "float_sign a") simp_all
  have vb: "float_value fb b = ?c * (if float_sign b then - real ?ub else real ?ub)"
    unfolding float_value_units [OF assms] by (cases "float_sign b") simp_all
  have "float_value fb a < float_value fb b
      \<longleftrightarrow> (if float_sign a then - real ?ua else real ?ua)
          < (if float_sign b then - real ?ub else real ?ub)"
    unfolding va vb using c by (rule mult_less_cancel_left_pos)
  also have "\<dots> \<longleftrightarrow> (if float_sign a then - int ?ua else int ?ua)
      < (if float_sign b then - int ?ub else int ?ub)"
    by (auto simp add: of_nat_less_iff [where 'a = real, symmetric] simp del: of_nat_less_iff)
  also have "\<dots> \<longleftrightarrow> (if float_sign a then - int (unat (float_magnitude a))
        else int (unat (float_magnitude a)))
      < (if float_sign b then - int (unat (float_magnitude b)) else int (unat (float_magnitude b)))"
    by (rule signed_units_less) (simp_all add: float_units_less_iff)
  also have "\<dots> \<longleftrightarrow> float_key a < float_key b"
    by (simp add: float_key_def)
  finally show ?thesis .
qed

lemma float_finite_not_nan: "float_finite fb x \<Longrightarrow> \<not> float_is_nan fb x"
  by (simp add: float_finite_def float_is_nan_def)

text \<open>
  For floats that denote numbers, of a format with at least one exponent bit, the
  comparisons defined on the bit patterns are the comparisons of the numbers denoted.
\<close>

lemma float_less_iff_value:
  assumes "fb \<le> LENGTH('a::len) - 1" "float_finite fb (a :: 'a word)" "float_finite fb (b :: 'a word)"
  shows "float_less fb a b \<longleftrightarrow> float_value fb a < float_value fb b"
  using assms(2,3)
  by (simp add: float_less_def float_finite_not_nan float_value_less_iff_key [OF assms(1)])

lemma float_eq_iff_value:
  assumes "fb \<le> LENGTH('a::len) - 1" "float_finite fb (a :: 'a word)" "float_finite fb (b :: 'a word)"
  shows "float_eq fb a b \<longleftrightarrow> float_value fb a = float_value fb b"
  using assms(2,3) float_value_less_iff_key [OF assms(1), of a b]
    float_value_less_iff_key [OF assms(1), of b a]
  by (auto simp add: float_eq_def float_finite_not_nan)

lemma float_value_0 [simp]: "float_value fb (0 :: 'a::len word) = 0"
  by (simp add: float_value_def float_exponent_def float_fraction_def float_magnitude_def
      float_sign_def)

lemma float_finite_0 [simp]: "fb < LENGTH('a::len) - 1 \<Longrightarrow> float_finite fb (0 :: 'a word)"
proof -
  assume "fb < LENGTH('a) - 1"
  then have "bit (mask (LENGTH('a) - 1 - fb) :: 'a word) 0"
    by (simp add: bit_mask_iff)
  then have "mask (LENGTH('a) - 1 - fb) \<noteq> (0 :: 'a word)"
    by auto
  then show ?thesis
    by (simp add: float_finite_def float_exponent_def float_magnitude_def)
qed

lemma float_ge_zero_iff_value:
  assumes "fb < LENGTH('a::len) - 1" "float_finite fb (x :: 'a word)"
  shows "float_ge_zero fb x \<longleftrightarrow> 0 \<le> float_value fb x"
    and "float_lt_zero fb x \<longleftrightarrow> float_value fb x < 0"
proof -
  have fb: "fb \<le> LENGTH('a) - 1"
    using assms(1) by simp
  have z: "float_finite fb (0 :: 'a word)"
    using assms(1) by simp
  show "float_ge_zero fb x \<longleftrightarrow> 0 \<le> float_value fb x"
    using float_less_iff_value [OF fb z assms(2)] float_eq_iff_value [OF fb assms(2) z]
    by (auto simp add: float_ge_zero_def)
  show "float_lt_zero fb x \<longleftrightarrow> float_value fb x < 0"
    using float_less_iff_value [OF fb assms(2) z]
    by (simp add: float_lt_zero_def)
qed

lemma binary32_comparisons:
  fixes a b :: "32 word"
  assumes "float_finite binary32_fraction a" "float_finite binary32_fraction b"
  shows "float_less binary32_fraction a b
           \<longleftrightarrow> float_value binary32_fraction a < float_value binary32_fraction b"
    and "float_eq binary32_fraction a b
           \<longleftrightarrow> float_value binary32_fraction a = float_value binary32_fraction b"
    and "float_ge_zero binary32_fraction a \<longleftrightarrow> 0 \<le> float_value binary32_fraction a"
    and "float_lt_zero binary32_fraction a \<longleftrightarrow> float_value binary32_fraction a < 0"
proof -
  have fb: "binary32_fraction \<le> LENGTH(32) - 1" "binary32_fraction < LENGTH(32) - 1"
    by (simp_all add: binary32_fraction_def)
  show "float_less binary32_fraction a b
      \<longleftrightarrow> float_value binary32_fraction a < float_value binary32_fraction b"
    using fb(1) assms by (rule float_less_iff_value)
  show "float_eq binary32_fraction a b
      \<longleftrightarrow> float_value binary32_fraction a = float_value binary32_fraction b"
    using fb(1) assms by (rule float_eq_iff_value)
  show "float_ge_zero binary32_fraction a \<longleftrightarrow> 0 \<le> float_value binary32_fraction a"
    using fb(2) assms(1) by (rule float_ge_zero_iff_value)
  show "float_lt_zero binary32_fraction a \<longleftrightarrow> float_value binary32_fraction a < 0"
    using fb(2) assms(1) by (rule float_ge_zero_iff_value)
qed

lemma binary64_comparisons:
  fixes a b :: "64 word"
  assumes "float_finite binary64_fraction a" "float_finite binary64_fraction b"
  shows "float_less binary64_fraction a b
           \<longleftrightarrow> float_value binary64_fraction a < float_value binary64_fraction b"
    and "float_eq binary64_fraction a b
           \<longleftrightarrow> float_value binary64_fraction a = float_value binary64_fraction b"
    and "float_ge_zero binary64_fraction a \<longleftrightarrow> 0 \<le> float_value binary64_fraction a"
    and "float_lt_zero binary64_fraction a \<longleftrightarrow> float_value binary64_fraction a < 0"
proof -
  have fb: "binary64_fraction \<le> LENGTH(64) - 1" "binary64_fraction < LENGTH(64) - 1"
    by (simp_all add: binary64_fraction_def)
  show "float_less binary64_fraction a b
      \<longleftrightarrow> float_value binary64_fraction a < float_value binary64_fraction b"
    using fb(1) assms by (rule float_less_iff_value)
  show "float_eq binary64_fraction a b
      \<longleftrightarrow> float_value binary64_fraction a = float_value binary64_fraction b"
    using fb(1) assms by (rule float_eq_iff_value)
  show "float_ge_zero binary64_fraction a \<longleftrightarrow> 0 \<le> float_value binary64_fraction a"
    using fb(2) assms(1) by (rule float_ge_zero_iff_value)
  show "float_lt_zero binary64_fraction a \<longleftrightarrow> float_value binary64_fraction a < 0"
    using fb(2) assms(1) by (rule float_ge_zero_iff_value)
qed

text \<open>
  The patterns that denote no number are the two infinities and the NaNs. The
  comparisons put the positive infinity above and the negative infinity below every
  float that denotes a number.
\<close>

lemma float_exponent_le_mask:
  "float_exponent fb (x :: 'a::len word) \<le> mask (LENGTH('a) - 1 - fb)"
proof -
  have "take_bit (LENGTH('a) - 1 - fb) (float_exponent fb x) = float_exponent fb x"
    unfolding float_exponent_def float_magnitude_def
    by (rule bit_word_eqI) (auto simp add: bit_simps)
  then have "uint (float_exponent fb x)
      = take_bit (LENGTH('a) - 1 - fb) (uint (float_exponent fb x))"
    by (metis unsigned_take_bit_eq)
  then have "uint (float_exponent fb x) \<le> mask (LENGTH('a) - 1 - fb)"
    using take_bit_int_less_eq_mask [of "LENGTH('a) - 1 - fb" "uint (float_exponent fb x)"]
    by simp
  moreover have "uint (mask (LENGTH('a) - 1 - fb) :: 'a word) = mask (LENGTH('a) - 1 - fb)"
  proof -
    have "LENGTH('a) - 1 - fb \<le> LENGTH('a)"
      by simp
    then have "min LENGTH('a) (LENGTH('a) - 1 - fb) = LENGTH('a) - 1 - fb"
      by (rule min_absorb2)
    then show ?thesis
      by (simp only: uint_mask_eq)
  qed
  ultimately show ?thesis
    by (simp add: word_le_def)
qed

lemma float_infinities:
  assumes "\<not> float_finite fb (i :: 'a::len word)" "\<not> float_is_nan fb i"
    and "float_finite fb (x :: 'a word)"
  shows "\<not> float_sign i \<longrightarrow> float_less fb x i"
    and "float_sign i \<longrightarrow> float_less fb i x"
proof -
  have ei: "float_exponent fb i = mask (LENGTH('a) - 1 - fb)"
    using assms(1) by (simp add: float_finite_def)
  have "unat (float_magnitude x) < unat (float_magnitude i)"
  proof (rule ccontr)
    assume "\<not> unat (float_magnitude x) < unat (float_magnitude i)"
    then have "unat (float_magnitude i) div 2 ^ fb \<le> unat (float_magnitude x) div 2 ^ fb"
      by (intro div_le_mono) simp
    then have "float_exponent fb i \<le> float_exponent fb x"
      by (simp add: word_le_nat_alt unat_float_exponent)
    with ei float_exponent_le_mask [of fb x] have "float_exponent fb x = mask (LENGTH('a) - 1 - fb)"
      by simp
    with assms(3) show False
      by (simp add: float_finite_def)
  qed
  then have lt: "uint (float_magnitude x) < uint (float_magnitude i)"
    by (simp add: word_less_nat_alt [symmetric] word_less_alt)
  have nn: "\<not> float_is_nan fb x"
    using assms(3) by (rule float_finite_not_nan)
  define mx mi where "mx = uint (float_magnitude x)" and "mi = uint (float_magnitude i)"
  have m: "0 \<le> mx" "mx < mi"
    using lt by (simp_all add: mx_def mi_def)
  show "\<not> float_sign i \<longrightarrow> float_less fb x i"
    and "float_sign i \<longrightarrow> float_less fb i x"
    using nn assms(2) m
    unfolding float_less_def float_key_def mx_def [symmetric] mi_def [symmetric]
    by auto
qed

text \<open>
  Claim C2, as amended. On either machine, encoding a value and decoding the result
  gives the value back, for every value in the range of each integer domain and for every
  float that is not a NaN. The decoded float is the encoded one bit for bit, except that
  the negative zero comes back as the positive zero; either way it is equal to the
  encoded float under the comparison of floats.
\<close>

theorem round_trip:
  "(- 128 \<le> n \<and> n \<le> 127 \<longrightarrow>
      (\<exists>bs. from_int8 True (PyLong n) = Inr bs \<and> to_int8 (PyBytes bs) = Inr n)) \<and>
   (0 \<le> n \<and> n \<le> 255 \<longrightarrow>
      (\<exists>bs. from_uint8 True (PyLong n) = Inr bs \<and> to_uint8 (PyBytes bs) = Inr n)) \<and>
   (- 32768 \<le> n \<and> n \<le> 32767 \<longrightarrow>
      (\<exists>bs. from_int16 host True (PyLong n) = Inr bs \<and> to_int16 host True (PyBytes bs) = Inr n)) \<and>
   (0 \<le> n \<and> n \<le> 65535 \<longrightarrow>
      (\<exists>bs. from_uint16 host True (PyLong n) = Inr bs \<and> to_uint16 host True (PyBytes bs) = Inr n)) \<and>
   (- 2147483648 \<le> n \<and> n \<le> 2147483647 \<longrightarrow>
      (\<exists>bs. from_int32 host True (PyLong n) = Inr bs \<and> to_int32 host True (PyBytes bs) = Inr n)) \<and>
   (0 \<le> n \<and> n \<le> 4294967295 \<longrightarrow>
      (\<exists>bs. from_uint32 host True (PyLong n) = Inr bs \<and> to_uint32 host True (PyBytes bs) = Inr n)) \<and>
   (- 9223372036854775808 \<le> n \<and> n \<le> 9223372036854775807 \<longrightarrow>
      (\<exists>bs. from_int64 host True (PyLong n) = Inr bs \<and> to_int64 host True (PyBytes bs) = Inr n)) \<and>
   (0 \<le> n \<and> n \<le> 18446744073709551615 \<longrightarrow>
      (\<exists>bs. from_uint64 host True (PyLong n) = Inr bs \<and> to_uint64 host True (PyBytes bs) = Inr n)) \<and>
   (\<not> float_is_nan binary32_fraction x \<longrightarrow>
      (\<exists>bs y. from_float32 host True (Some x) = Inr bs \<and> to_float32 host True (PyBytes bs) = Inr y
         \<and> float_eq binary32_fraction y x \<and> y = (if float_magnitude x = 0 then 0 else x))) \<and>
   (\<not> float_is_nan binary64_fraction z \<longrightarrow>
      (\<exists>bs y. from_float64 host True (Some z) = Inr bs \<and> to_float64 host True (PyBytes bs) = Inr y
         \<and> float_eq binary64_fraction y z \<and> y = (if float_magnitude z = 0 then 0 else z)))"
  by (intro conjI impI; (elim conjE)?;
      (rule int8_round_trip uint8_round_trip int16_round_trip uint16_round_trip
        int32_round_trip uint32_round_trip int64_round_trip uint64_round_trip
        float32_round_trip float64_round_trip))

text \<open>The theorem at the integer 100, the negative zero of binary32 and a negative binary64 number.\<close>

theorem round_trip_witness:
  "((- 128 \<le> (100 :: int) \<and> (100 :: int) \<le> 127) \<and>
      from_int8 True (PyLong 100) = Inr [228] \<and> to_int8 (PyBytes [228]) = Inr 100) \<and>
   (((0 :: int) \<le> 100 \<and> (100 :: int) \<le> 255) \<and>
      from_uint8 True (PyLong 100) = Inr [100] \<and> to_uint8 (PyBytes [100]) = Inr 100) \<and>
   (from_int16 BigEndian True (PyLong 100) = Inr [228, 0] \<and>
      to_int16 BigEndian True (PyBytes [228, 0]) = Inr 100) \<and>
   (from_uint16 BigEndian True (PyLong 100) = Inr [100, 0] \<and>
      to_uint16 BigEndian True (PyBytes [100, 0]) = Inr 100) \<and>
   (from_int32 BigEndian True (PyLong 100) = Inr [228, 0, 0, 0] \<and>
      to_int32 BigEndian True (PyBytes [228, 0, 0, 0]) = Inr 100) \<and>
   (from_uint32 BigEndian True (PyLong 100) = Inr [100, 0, 0, 0] \<and>
      to_uint32 BigEndian True (PyBytes [100, 0, 0, 0]) = Inr 100) \<and>
   (from_int64 BigEndian True (PyLong 100) = Inr [228, 0, 0, 0, 0, 0, 0, 0] \<and>
      to_int64 BigEndian True (PyBytes [228, 0, 0, 0, 0, 0, 0, 0]) = Inr 100) \<and>
   (from_uint64 BigEndian True (PyLong 100) = Inr [100, 0, 0, 0, 0, 0, 0, 0] \<and>
      to_uint64 BigEndian True (PyBytes [100, 0, 0, 0, 0, 0, 0, 0]) = Inr 100) \<and>
   (\<not> float_is_nan binary32_fraction (0x80000000 :: 32 word) \<and>
      from_float32 BigEndian True (Some 0x80000000) = Inr [128, 0, 0, 0] \<and>
      to_float32 BigEndian True (PyBytes [128, 0, 0, 0]) = Inr 0 \<and>
      float_eq binary32_fraction (0 :: 32 word) 0x80000000) \<and>
   (\<not> float_is_nan binary64_fraction (0xC00921FB54442D18 :: 64 word) \<and>
      from_float64 BigEndian True (Some 0xC00921FB54442D18)
        = Inr [63, 246, 222, 4, 171, 187, 210, 231] \<and>
      to_float64 BigEndian True (PyBytes [63, 246, 222, 4, 171, 187, 210, 231])
        = Inr 0xC00921FB54442D18 \<and>
      float_eq binary64_fraction (0xC00921FB54442D18 :: 64 word) 0xC00921FB54442D18)"
proof -
  have enc:
    "from_int8 True (PyLong 100) = Inr [228]"
    "from_uint8 True (PyLong 100) = Inr [100]"
    "from_int16 BigEndian True (PyLong 100) = Inr [228, 0]"
    "from_uint16 BigEndian True (PyLong 100) = Inr [100, 0]"
    "from_int32 BigEndian True (PyLong 100) = Inr [228, 0, 0, 0]"
    "from_uint32 BigEndian True (PyLong 100) = Inr [100, 0, 0, 0]"
    "from_int64 BigEndian True (PyLong 100) = Inr [228, 0, 0, 0, 0, 0, 0, 0]"
    "from_uint64 BigEndian True (PyLong 100) = Inr [100, 0, 0, 0, 0, 0, 0, 0]"
    "from_float32 BigEndian True (Some 0x80000000) = Inr [128, 0, 0, 0]"
    "from_float64 BigEndian True (Some 0xC00921FB54442D18)
       = Inr [63, 246, 222, 4, 171, 187, 210, 231]"
    by code_simp+
  have nan:
    "\<not> float_is_nan binary32_fraction (0x80000000 :: 32 word)"
    "\<not> float_is_nan binary64_fraction (0xC00921FB54442D18 :: 64 word)"
    by code_simp+
  have mag:
    "float_magnitude (0x80000000 :: 32 word) = 0"
    "float_magnitude (0xC00921FB54442D18 :: 64 word) \<noteq> 0"
    by code_simp+
  show ?thesis
    using round_trip [of 100 BigEndian "0x80000000" "0xC00921FB54442D18"] nan mag
    by (simp add: enc)
qed

text \<open>
  The claim as stated fails on NaNs. A NaN with the sign bit clear is not \<open>\<ge> 0\<close>, so
  the encoder complements it; the result has its top bit set, so the decoder only clears
  that bit: the quiet NaN of either width comes back as a subnormal number.
\<close>

theorem round_trip_nan_counterexample:
  "float_is_nan binary32_fraction (0x7FC00000 :: 32 word) \<and>
   from_float32 LittleEndian True (Some 0x7FC00000) = Inr [0x80, 0x3F, 0xFF, 0xFF] \<and>
   to_float32 LittleEndian True (PyBytes [0x80, 0x3F, 0xFF, 0xFF]) = Inr 0x003FFFFF \<and>
   \<not> float_eq binary32_fraction (0x003FFFFF :: 32 word) 0x7FC00000 \<and>
   float_is_nan binary64_fraction (0x7FF8000000000000 :: 64 word) \<and>
   from_float64 LittleEndian True (Some 0x7FF8000000000000)
     = Inr [0x80, 0x07, 0xFF, 0xFF, 0xFF, 0xFF, 0xFF, 0xFF] \<and>
   to_float64 LittleEndian True (PyBytes [0x80, 0x07, 0xFF, 0xFF, 0xFF, 0xFF, 0xFF, 0xFF])
     = Inr 0x0007FFFFFFFFFFFF \<and>
   \<not> float_eq binary64_fraction (0x0007FFFFFFFFFFFF :: 64 word) 0x7FF8000000000000"
  by code_simp

text \<open>
  Claim C7. The float encoders, on either machine: a float \<open>\<ge> 0\<close>, which both zeros
  are, is encoded as its big-endian bit pattern with \<open>0x80\<close> or-ed into byte 0 and nothing
  else changed; a float \<open>< 0\<close> is encoded as the complement of every byte of its
  big-endian bit pattern.
\<close>

theorem float_encoder_branches:
  "float_ge_zero binary32_fraction (0 :: 32 word) \<and>
   float_ge_zero binary32_fraction (0x80000000 :: 32 word) \<and>
   float_ge_zero binary64_fraction (0 :: 64 word) \<and>
   float_ge_zero binary64_fraction (0x8000000000000000 :: 64 word) \<and>
   (float_ge_zero binary32_fraction x \<longrightarrow>
      from_float32 host True (Some x) = Inr ((big_endian 4 x)[0 := big_endian 4 x ! 0 OR 0x80])) \<and>
   (float_lt_zero binary32_fraction x \<longrightarrow>
      from_float32 host True (Some x) = Inr (map NOT (big_endian 4 x))) \<and>
   (float_ge_zero binary64_fraction z \<longrightarrow>
      from_float64 host True (Some z) = Inr ((big_endian 8 z)[0 := big_endian 8 z ! 0 OR 0x80])) \<and>
   (float_lt_zero binary64_fraction z \<longrightarrow>
      from_float64 host True (Some z) = Inr (map NOT (big_endian 8 z)))"
proof -
  have "float_ge_zero binary32_fraction (0 :: 32 word)"
    "float_ge_zero binary32_fraction (0x80000000 :: 32 word)"
    "float_ge_zero binary64_fraction (0 :: 64 word)"
    "float_ge_zero binary64_fraction (0x8000000000000000 :: 64 word)"
    by code_simp+
  then show ?thesis
    using float_lt_zero_not_ge_zero [of binary32_fraction x]
      float_lt_zero_not_ge_zero [of binary64_fraction z]
    by (auto simp add: from_float32_parsed from_float64_parsed)
qed

text \<open>The theorem at 1.0 and -1.0 in binary32 and at a positive and a negative number in binary64.\<close>

theorem float_encoder_branches_witness:
  "(float_ge_zero binary32_fraction (0x3F800000 :: 32 word) \<and>
      big_endian 4 (0x3F800000 :: 32 word) = [0x3F, 0x80, 0, 0] \<and>
      from_float32 LittleEndian True (Some 0x3F800000) = Inr [0xBF, 0x80, 0, 0]) \<and>
   (float_lt_zero binary32_fraction (0xBF800000 :: 32 word) \<and>
      big_endian 4 (0xBF800000 :: 32 word) = [0xBF, 0x80, 0, 0] \<and>
      from_float32 LittleEndian True (Some 0xBF800000) = Inr [0x40, 0x7F, 0xFF, 0xFF]) \<and>
   (float_ge_zero binary64_fraction (0x400921FB54442D18 :: 64 word) \<and>
      big_endian 8 (0x400921FB54442D18 :: 64 word) = [0x40, 0x09, 0x21, 0xFB, 0x54, 0x44, 0x2D, 0x18] \<and>
      from_float64 BigEndian True (Some 0x400921FB54442D18)
        = Inr [0xC0, 0x09, 0x21, 0xFB, 0x54, 0x44, 0x2D, 0x18]) \<and>
   (float_lt_zero binary64_fraction (0xC00921FB54442D18 :: 64 word) \<and>
      big_endian 8 (0xC00921FB54442D18 :: 64 word) = [0xC0, 0x09, 0x21, 0xFB, 0x54, 0x44, 0x2D, 0x18] \<and>
      from_float64 BigEndian True (Some 0xC00921FB54442D18)
        = Inr [0x3F, 0xF6, 0xDE, 0x04, 0xAB, 0xBB, 0xD2, 0xE7])"
proof -
  have c:
    "float_ge_zero binary32_fraction (0x3F800000 :: 32 word)"
    "float_lt_zero binary32_fraction (0xBF800000 :: 32 word)"
    "float_ge_zero binary64_fraction (0x400921FB54442D18 :: 64 word)"
    "float_lt_zero binary64_fraction (0xC00921FB54442D18 :: 64 word)"
    by code_simp+
  have b:
    "big_endian 4 (0x3F800000 :: 32 word) = [0x3F, 0x80, 0, 0]"
    "big_endian 4 (0xBF800000 :: 32 word) = [0xBF, 0x80, 0, 0]"
    "big_endian 8 (0x400921FB54442D18 :: 64 word) = [0x40, 0x09, 0x21, 0xFB, 0x54, 0x44, 0x2D, 0x18]"
    "big_endian 8 (0xC00921FB54442D18 :: 64 word) = [0xC0, 0x09, 0x21, 0xFB, 0x54, 0x44, 0x2D, 0x18]"
    by code_simp+
  show ?thesis
    using c
      float_encoder_branches [of "0x3F800000" LittleEndian "0x400921FB54442D18"]
      float_encoder_branches [of "0xBF800000" LittleEndian "0xC00921FB54442D18"]
      float_encoder_branches [of "0x3F800000" BigEndian "0x400921FB54442D18"]
      float_encoder_branches [of "0xBF800000" BigEndian "0xC00921FB54442D18"]
    by (simp add: b)
qed

section \<open>Totality of the decoders\<close>

lemma decoders_no_memory:
  "to_int16 host False (PyBytes bs) = (if length bs \<noteq> 2 then Inl LengthError else Inl NoMemory)"
  "to_uint16 host False (PyBytes bs) = (if length bs \<noteq> 2 then Inl LengthError else Inl NoMemory)"
  "to_int32 host False (PyBytes bs) = (if length bs \<noteq> 4 then Inl LengthError else Inl NoMemory)"
  "to_uint32 host False (PyBytes bs) = (if length bs \<noteq> 4 then Inl LengthError else Inl NoMemory)"
  "to_int64 host False (PyBytes bs) = (if length bs \<noteq> 8 then Inl LengthError else Inl NoMemory)"
  "to_uint64 host False (PyBytes bs) = (if length bs \<noteq> 8 then Inl LengthError else Inl NoMemory)"
  "to_float32 host False (PyBytes bs) = (if length bs \<noteq> 4 then Inl LengthError else Inl NoMemory)"
  "to_float64 host False (PyBytes bs) = (if length bs \<noteq> 8 then Inl LengthError else Inl NoMemory)"
  by (simp_all add: to_int16_def to_uint16_def to_int32_def to_uint32_def to_int64_def
      to_uint64_def to_float32_def to_float64_def parse_y_hash_def widths PyMem_RawMalloc_def)

lemma sint_bounds:
  "- 128 \<le> sint (a :: 8 word)" "sint a \<le> 127"
  "- 32768 \<le> sint (b :: 16 word)" "sint b \<le> 32767"
  "- 2147483648 \<le> sint (c :: 32 word)" "sint c \<le> 2147483647"
  "- 9223372036854775808 \<le> sint (d :: 64 word)" "sint d \<le> 9223372036854775807"
  using sint_ge [of a] sint_lt [of a] sint_ge [of b] sint_lt [of b]
    sint_ge [of c] sint_lt [of c] sint_ge [of d] sint_lt [of d]
  by simp_all

lemma uint_bounds:
  "uint (a :: 8 word) \<le> 255" "uint (b :: 16 word) \<le> 65535"
  "uint (c :: 32 word) \<le> 4294967295" "uint (d :: 64 word) \<le> 18446744073709551615"
  using uint_lt2p [of a] uint_lt2p [of b] uint_lt2p [of c] uint_lt2p [of d]
  by simp_all

text \<open>
  Claim C9. A decoder given a byte string of its domain's width never rejects it: it
  returns a value of the domain, whatever the bytes are and on either machine. The
  decoders of the wider domains allocate a buffer first; when that allocation fails they
  report the lack of memory, which does not depend on the bytes.
\<close>

theorem decoders_total:
  "(length bs = 1 \<longrightarrow>
      (\<exists>v. to_int8 (PyBytes bs) = Inr v \<and> - 128 \<le> v \<and> v \<le> 127) \<and>
      (\<exists>v. to_uint8 (PyBytes bs) = Inr v \<and> 0 \<le> v \<and> v \<le> 255)) \<and>
   (length bs = 2 \<longrightarrow>
      (\<exists>v. to_int16 host True (PyBytes bs) = Inr v \<and> - 32768 \<le> v \<and> v \<le> 32767) \<and>
      (\<exists>v. to_uint16 host True (PyBytes bs) = Inr v \<and> 0 \<le> v \<and> v \<le> 65535) \<and>
      to_int16 host False (PyBytes bs) = Inl NoMemory \<and>
      to_uint16 host False (PyBytes bs) = Inl NoMemory) \<and>
   (length bs = 4 \<longrightarrow>
      (\<exists>v. to_int32 host True (PyBytes bs) = Inr v \<and> - 2147483648 \<le> v \<and> v \<le> 2147483647) \<and>
      (\<exists>v. to_uint32 host True (PyBytes bs) = Inr v \<and> 0 \<le> v \<and> v \<le> 4294967295) \<and>
      (\<exists>x. to_float32 host True (PyBytes bs) = Inr x) \<and>
      to_int32 host False (PyBytes bs) = Inl NoMemory \<and>
      to_uint32 host False (PyBytes bs) = Inl NoMemory \<and>
      to_float32 host False (PyBytes bs) = Inl NoMemory) \<and>
   (length bs = 8 \<longrightarrow>
      (\<exists>v. to_int64 host True (PyBytes bs) = Inr v
         \<and> - 9223372036854775808 \<le> v \<and> v \<le> 9223372036854775807) \<and>
      (\<exists>v. to_uint64 host True (PyBytes bs) = Inr v \<and> 0 \<le> v \<and> v \<le> 18446744073709551615) \<and>
      (\<exists>x. to_float64 host True (PyBytes bs) = Inr x) \<and>
      to_int64 host False (PyBytes bs) = Inl NoMemory \<and>
      to_uint64 host False (PyBytes bs) = Inl NoMemory \<and>
      to_float64 host False (PyBytes bs) = Inl NoMemory)"
  by (simp add: to_int8_bytes to_uint8_bytes to_int16_bytes to_uint16_bytes to_int32_bytes
      to_uint32_bytes to_int64_bytes to_uint64_bytes to_float32_bytes to_float64_bytes
      decoders_no_memory sint_bounds uint_bounds)

text \<open>The theorem at one byte string of each width.\<close>

theorem decoders_total_witness:
  "(length [0x12 :: byte] = 1 \<and>
      to_int8 (PyBytes [0x12]) = Inr (- 110) \<and> to_uint8 (PyBytes [0x12]) = Inr 18) \<and>
   (length [0x12, 0x34 :: byte] = 2 \<and>
      to_int16 LittleEndian True (PyBytes [0x12, 0x34]) = Inr (- 28108) \<and>
      to_uint16 LittleEndian True (PyBytes [0x12, 0x34]) = Inr 4660 \<and>
      to_int16 LittleEndian False (PyBytes [0x12, 0x34]) = Inl NoMemory) \<and>
   (length [0x12, 0x34, 0x56, 0x78 :: byte] = 4 \<and>
      to_int32 LittleEndian True (PyBytes [0x12, 0x34, 0x56, 0x78]) = Inr (- 1842063752) \<and>
      to_uint32 LittleEndian True (PyBytes [0x12, 0x34, 0x56, 0x78]) = Inr 305419896 \<and>
      to_float32 BigEndian True (PyBytes [0x12, 0x34, 0x56, 0x78]) = Inr 0xEDCBA987) \<and>
   (length [0x12, 0x34, 0x56, 0x78, 0x9A, 0xBC, 0xDE, 0xF0 :: byte] = 8 \<and>
      to_int64 LittleEndian True (PyBytes [0x12, 0x34, 0x56, 0x78, 0x9A, 0xBC, 0xDE, 0xF0])
        = Inr (- 7911603569390985488) \<and>
      to_uint64 LittleEndian True (PyBytes [0x12, 0x34, 0x56, 0x78, 0x9A, 0xBC, 0xDE, 0xF0])
        = Inr 1311768467463790320 \<and>
      to_float64 BigEndian True (PyBytes [0x12, 0x34, 0x56, 0x78, 0x9A, 0xBC, 0xDE, 0xF0])
        = Inr 0xEDCBA9876543210F)"
proof -
  have d:
    "to_int8 (PyBytes [0x12]) = Inr (- 110)" "to_uint8 (PyBytes [0x12]) = Inr 18"
    "to_int16 LittleEndian True (PyBytes [0x12, 0x34]) = Inr (- 28108)"
    "to_uint16 LittleEndian True (PyBytes [0x12, 0x34]) = Inr 4660"
    "to_int32 LittleEndian True (PyBytes [0x12, 0x34, 0x56, 0x78]) = Inr (- 1842063752)"
    "to_uint32 LittleEndian True (PyBytes [0x12, 0x34, 0x56, 0x78]) = Inr 305419896"
    "to_float32 BigEndian True (PyBytes [0x12, 0x34, 0x56, 0x78]) = Inr 0xEDCBA987"
    "to_int64 LittleEndian True (PyBytes [0x12, 0x34, 0x56, 0x78, 0x9A, 0xBC, 0xDE, 0xF0])
       = Inr (- 7911603569390985488)"
    "to_uint64 LittleEndian True (PyBytes [0x12, 0x34, 0x56, 0x78, 0x9A, 0xBC, 0xDE, 0xF0])
       = Inr 1311768467463790320"
    "to_float64 BigEndian True (PyBytes [0x12, 0x34, 0x56, 0x78, 0x9A, 0xBC, 0xDE, 0xF0])
       = Inr 0xEDCBA9876543210F"
    by code_simp+
  show ?thesis
    using decoders_total [of "[0x12]" LittleEndian]
      decoders_total [of "[0x12, 0x34]" LittleEndian]
      decoders_total [of "[0x12, 0x34, 0x56, 0x78]" LittleEndian]
      decoders_total [of "[0x12, 0x34, 0x56, 0x78]" BigEndian]
      decoders_total [of "[0x12, 0x34, 0x56, 0x78, 0x9A, 0xBC, 0xDE, 0xF0]" LittleEndian]
      decoders_total [of "[0x12, 0x34, 0x56, 0x78, 0x9A, 0xBC, 0xDE, 0xF0]" BigEndian]
    by (simp add: d)
qed

section \<open>Values out of range\<close>









lemma float_encoders_any_mem:
  "from_float32 host mem p = (case p of None \<Rightarrow> Inl TypeError
     | Some x \<Rightarrow> if mem then Inr (big_endian 4 (normalize_float binary32_fraction x)) else Inl NoMemory)"
  "from_float64 host mem q = (case q of None \<Rightarrow> Inl TypeError
     | Some z \<Rightarrow> if mem then Inr (big_endian 8 (normalize_float binary64_fraction z)) else Inl NoMemory)"
  by (cases mem; simp add: from_float32_normalize from_float64_normalize float_encoders_unparsed
      split: option.split; simp add: from_float32_def from_float64_def PyMem_RawMalloc_def Let_def)+




section \<open>Collisions of the float encoders\<close>





lemma float_sign_or_sign_bit: "float_sign (x OR sign_bit)"
  using bit_or_sign_bit [of x] by (simp add: float_sign_def)






section \<open>The integer codecs on a big-endian machine\<close>

text \<open>
  The integer encoders take the bytes of the value by shifting, which does not depend on
  the machine, and then choose the index to store them at by the byte order of the
  machine. On a little-endian machine the most significant byte is stored first; on a
  big-endian machine the least significant byte is.
\<close>

lemma integer_layout_by_host:
  "wire_bytes LittleEndian w x = big_endian w x"
  "wire_bytes BigEndian w x = little_endian w x"
  by (simp_all add: wire_bytes_def)

text \<open>
  Claim C3 fails on a big-endian machine. There the encoders put the least significant
  byte first: 1 is encoded as \<open>01 00\<close> by \<^verbatim>\<open>from_uint16\<close>, not as the big-endian
  \<open>00 01\<close> that the same call gives on a little-endian machine, and likewise for the
  other widths.
\<close>

theorem big_endian_host_layout:
  "endianness_impl BigEndian = 0 \<and>
   from_uint16 BigEndian True (PyLong 1) = Inr [0x01, 0x00] \<and>
   from_uint16 LittleEndian True (PyLong 1) = Inr [0x00, 0x01] \<and>
   big_endian 2 (1 :: 16 word) = [0x00, 0x01] \<and>
   from_uint32 BigEndian True (PyLong 0x12345678) = Inr [0x78, 0x56, 0x34, 0x12] \<and>
   from_uint64 BigEndian True (PyLong 1) = Inr [1, 0, 0, 0, 0, 0, 0, 0] \<and>
   from_int64 BigEndian True (PyLong 1) = Inr [0x81, 0, 0, 0, 0, 0, 0, 0] \<and>
   from_int64 LittleEndian True (PyLong 1) = Inr [0x80, 0, 0, 0, 0, 0, 0, 1]"
  by code_simp

text \<open>
  Claim C4 fails on a big-endian machine. There \<^verbatim>\<open>from_int16\<close> encodes 1 as \<open>81 00\<close>:
  the bytes are in little-endian order and the flipped bit is bit 7 of the least
  significant byte, not the sign bit. The two's-complement big-endian bytes of 1 with
  the sign bit flipped are \<open>80 01\<close>, which the decoder on that machine reads as 256.
\<close>

theorem big_endian_host_signed:
  "from_int16 BigEndian True (PyLong 1) = Inr [0x81, 0x00] \<and>
   flip_byte0 (big_endian 2 (word_of_int 1 :: 16 word)) = [0x80, 0x01] \<and>
   to_int16 BigEndian True (PyBytes [0x80, 0x01]) = Inr 256 \<and>
   from_int32 BigEndian True (PyLong 1) = Inr [0x81, 0, 0, 0] \<and>
   from_int64 BigEndian True (PyLong 256) = Inr [0x80, 1, 0, 0, 0, 0, 0, 0] \<and>
   to_int64 BigEndian True (PyBytes [0x80, 0, 0, 0, 0, 0, 0, 1]) = Inr 72057594037927936"
  by code_simp

text \<open>
  Claim C1 fails on a big-endian machine. There the encodings of the integers wider than
  one byte are not ordered as the integers are: \<open>1 < 256\<close>, but \<^verbatim>\<open>from_uint16\<close> encodes 1
  as \<open>01 00\<close> and 256 as \<open>00 01\<close>; \<open>127 < 128\<close>, but \<^verbatim>\<open>from_int16\<close> encodes 127 as
  \<open>FF 00\<close> and 128 as \<open>00 00\<close>.
\<close>

theorem big_endian_host_order:
  "from_uint16 BigEndian True (PyLong 1) = Inr [0x01, 0x00] \<and>
   from_uint16 BigEndian True (PyLong 256) = Inr [0x00, 0x01] \<and>
   \<not> bytes_less [0x01, 0x00] [0x00, 0x01] \<and>
   from_int16 BigEndian True (PyLong 127) = Inr [0xFF, 0x00] \<and>
   from_int16 BigEndian True (PyLong 128) = Inr [0x00, 0x00] \<and>
   \<not> bytes_less [0xFF, 0x00] [0x00, 0x00] \<and>
   from_uint32 BigEndian True (PyLong 1) = Inr [1, 0, 0, 0] \<and>
   from_uint32 BigEndian True (PyLong 256) = Inr [0, 1, 0, 0] \<and>
   \<not> bytes_less [1, 0, 0, 0] [0, 1, 0, 0] \<and>
   from_int64 BigEndian True (PyLong 1) = Inr [0x81, 0, 0, 0, 0, 0, 0, 0] \<and>
   from_int64 BigEndian True (PyLong 256) = Inr [0x80, 1, 0, 0, 0, 0, 0, 0] \<and>
   \<not> bytes_less [0x81, 0, 0, 0, 0, 0, 0, 0] [0x80, 1, 0, 0, 0, 0, 0, 0]"
  by code_simp

section \<open>Order of byte strings and order of numbers\<close>

lemma unat_byte_less: "unat (b :: byte) < 256"
  using unsigned_less [of b, where 'a = nat] by simp

lemma unat_less_power:
  assumes "LENGTH('a::len) = 8 * w"
  shows "unat (x :: 'a word) < 256 ^ w"
proof -
  have "unat x < 2 ^ (8 * w)"
    using unsigned_less [of x, where 'a = nat] assms by simp
  moreover have "(2 :: nat) ^ (8 * w) = (2 ^ 8) ^ w"
    by (rule power_mult)
  ultimately show ?thesis
    by simp
qed

lemma be_nat_bound: "be_nat bs < 256 ^ length bs"
proof (induction bs)
  case Nil
  then show ?case by simp
next
  case (Cons b bs)
  have "unat b < 256"
    by (rule unat_byte_less)
  then have "unat b + 1 \<le> 256" by simp
  have "be_nat (b # bs) < (unat b + 1) * 256 ^ length bs"
    using Cons.IH by simp
  also have "\<dots> \<le> 256 * 256 ^ length bs"
    using \<open>unat b + 1 \<le> 256\<close> by (rule mult_le_mono1)
  finally show ?case by simp
qed

lemma radix_less:
  fixes a b r s p :: nat
  assumes "a < b" "r < p"
  shows "a * p + r < b * p + s"
proof -
  have "a * p + r < (a + 1) * p"
    using assms(2) by simp
  also have "\<dots> \<le> b * p"
    using assms(1) by (intro mult_le_mono1) simp
  finally show ?thesis by simp
qed

lemma bytes_less_iff_be_nat:
  assumes "length xs = length ys"
  shows "bytes_less xs ys \<longleftrightarrow> be_nat xs < be_nat ys"
  using assms
proof (induction xs ys rule: list_induct2)
  case Nil
  then show ?case by simp
next
  case (Cons x xs y ys)
  let ?p = "256 ^ length ys :: nat"
  have bx: "be_nat xs < ?p" and by': "be_nat ys < ?p"
    using be_nat_bound [of xs] be_nat_bound [of ys] Cons.hyps by simp_all
  consider "unat x < unat y" | "x = y" | "unat y < unat x"
    using word_unat_eq_iff [of x y] by fastforce
  then show ?case
  proof cases
    case 1
    then have "x < y" by (simp add: word_less_nat_alt)
    moreover have "unat x * ?p + be_nat xs < unat y * ?p + be_nat ys"
      using 1 bx by (rule radix_less)
    ultimately show ?thesis
      using Cons.hyps by simp
  next
    case 2
    then show ?thesis
      using Cons by simp
  next
    case 3
    then have "\<not> x < y" "x \<noteq> y" by (auto simp add: word_less_nat_alt)
    moreover have "unat y * ?p + be_nat ys < unat x * ?p + be_nat xs"
      using 3 by' by (rule radix_less)
    ultimately show ?thesis
      using Cons.hyps by simp
  qed
qed

lemma big_endian_Suc:
  "big_endian (Suc w) x = ucast (drop_bit (8 * w) x) # big_endian w x"
proof -
  have "[0..<Suc w] = 0 # map Suc [0..<w]"
    by (simp add: upt_conv_Cons map_Suc_upt del: upt_Suc)
  then show ?thesis
    by (simp add: big_endian_def comp_def del: upt_Suc)
qed

lemma unat_byte_of:
  "unat (ucast (drop_bit k (x :: 'a::len word)) :: byte) = unat x div 2 ^ k mod 256"
proof -
  have "unat (ucast (drop_bit k x) :: byte) = take_bit 8 (unat (drop_bit k x))"
    by (simp add: unsigned_ucast_eq)
  also have "unat (drop_bit k x) = drop_bit k (unat x)"
    by (rule unat_drop_bit_eq)
  finally show ?thesis
    by (simp add: take_bit_eq_mod drop_bit_eq_div)
qed

lemma be_nat_big_endian: "be_nat (big_endian w (x :: 'a::len word)) = unat x mod 256 ^ w"
proof (induction w)
  case 0
  then show ?case by (simp add: big_endian_def)
next
  case (Suc w)
  have "(2 :: nat) ^ (8 * w) = (2 ^ 8) ^ w"
    by (rule power_mult)
  then have p: "(2 :: nat) ^ (w * 8) = 256 ^ w"
    by (simp add: mult.commute)
  have "unat x mod (256 ^ w * 256) = 256 ^ w * (unat x div 256 ^ w mod 256) + unat x mod 256 ^ w"
    by (rule mod_mult2_eq)
  then show ?case
    using Suc by (simp add: big_endian_Suc unat_byte_of p mult.commute)
qed

lemma be_nat_big_endian_full:
  assumes "LENGTH('a::len) = 8 * w"
  shows "be_nat (big_endian w (x :: 'a word)) = unat x"
  using unat_less_power [OF assms, of x] by (simp add: be_nat_big_endian)

lemma bytes_less_big_endian:
  assumes "LENGTH('a::len) = 8 * w"
  shows "bytes_less (big_endian w x) (big_endian w y) \<longleftrightarrow> x < (y :: 'a word)"
proof -
  have "length (big_endian w x) = length (big_endian w y)"
    by simp
  then have "bytes_less (big_endian w x) (big_endian w y)
      \<longleftrightarrow> be_nat (big_endian w x) < be_nat (big_endian w y)"
    by (rule bytes_less_iff_be_nat)
  then show ?thesis
    by (simp add: be_nat_big_endian_full [OF assms] word_less_nat_alt)
qed

section \<open>The transforms are monotone\<close>

lemma two_power_length: "(2 :: int) ^ LENGTH('a::len) = 2 * 2 ^ (LENGTH('a) - 1)"
proof -
  obtain n where "LENGTH('a) = Suc n"
    by (cases "LENGTH('a)") simp_all
  then show ?thesis by simp
qed

lemma uint_top_split:
  "uint (y :: 'a::len word)
     = uint (float_magnitude y) + (if float_sign y then 2 ^ (LENGTH('a) - 1) else 0)"
proof -
  have "uint y = take_bit (Suc (LENGTH('a) - 1)) (uint y)"
    by (simp add: bintr_uint)
  also have "\<dots> = 2 ^ (LENGTH('a) - 1) * of_bool (bit (uint y) (LENGTH('a) - 1))
      + take_bit (LENGTH('a) - 1) (uint y)"
    by (rule take_bit_Suc_from_most)
  also have "take_bit (LENGTH('a) - 1) (uint y) = uint (float_magnitude y)"
    by (simp add: float_magnitude_def unsigned_take_bit_eq)
  also have "bit (uint y) (LENGTH('a) - 1) \<longleftrightarrow> float_sign y"
    by (simp add: float_sign_def bit_uint_iff)
  finally show ?thesis by simp
qed

lemma uint_float_magnitude_less: "uint (float_magnitude (y :: 'a::len word)) < 2 ^ (LENGTH('a) - 1)"
  by (simp add: float_magnitude_def unsigned_take_bit_eq take_bit_int_less_exp)

lemma sint_top_split:
  "sint (y :: 'a::len word)
     = uint (float_magnitude y) - (if float_sign y then 2 ^ (LENGTH('a) - 1) else 0)"
proof -
  have "sint y = take_bit (Suc (LENGTH('a) - 1)) (uint y)
      - 2 ^ Suc (LENGTH('a) - 1) * of_bool (bit (uint y) (LENGTH('a) - 1))"
    by (simp only: sint_uint signed_take_bit_eq_take_bit_minus One_nat_def)
  also have "take_bit (Suc (LENGTH('a) - 1)) (uint y) = uint y"
    by (simp add: bintr_uint)
  also have "bit (uint y) (LENGTH('a) - 1) \<longleftrightarrow> float_sign y"
    by (simp add: float_sign_def bit_uint_iff)
  finally show ?thesis
    using two_power_length [where 'a = 'a] by (simp add: uint_top_split [of y])
qed

lemma float_magnitude_xor_sign_bit: "float_magnitude (x XOR sign_bit) = float_magnitude x"
  unfolding float_magnitude_def
  by (rule bit_word_eqI) (auto simp add: bit_take_bit_iff bit_xor_iff bit_sign_bit)

lemma float_magnitude_or_sign_bit: "float_magnitude (x OR sign_bit) = float_magnitude x"
  unfolding float_magnitude_def
  by (rule bit_word_eqI) (auto simp add: bit_take_bit_iff bit_or_iff bit_sign_bit)

lemma float_sign_xor_sign_bit: "float_sign (x XOR sign_bit) \<longleftrightarrow> \<not> float_sign x"
  by (simp add: float_sign_def bit_xor_iff bit_sign_bit)

lemma uint_normalize_signed:
  "uint (normalize_signed (x :: 'a::len word)) = sint x + 2 ^ (LENGTH('a) - 1)"
  by (simp add: normalize_signed_def uint_top_split [of "x XOR sign_bit"] sint_top_split [of x]
      float_magnitude_xor_sign_bit float_sign_xor_sign_bit)

lemma normalize_signed_less:
  "normalize_signed a < normalize_signed b \<longleftrightarrow> sint a < sint b"
  by (simp add: word_less_alt uint_normalize_signed)

lemma uint_not: "uint (NOT x :: 'a::len word) = 2 ^ LENGTH('a) - 1 - uint x"
proof -
  have "uint (NOT x) = take_bit LENGTH('a) (NOT (uint x))"
    by (rule unsigned_not_eq)
  also have "\<dots> = mask LENGTH('a) - take_bit LENGTH('a) (uint x)"
    by (rule take_bit_not_eq_mask_diff)
  finally show ?thesis
    by (simp add: mask_eq_exp_minus_1 bintr_uint)
qed

lemma uint_normalize_float:
  assumes "\<not> float_is_nan fb (x :: 'a::len word)"
  shows "uint (normalize_float fb x)
     = 2 ^ (LENGTH('a) - 1) + float_key x - (if float_key x < 0 then 1 else 0)"
proof (cases "float_ge_zero fb x")
  case True
  then have key: "float_key x = uint (float_magnitude x)"
    by (auto simp add: float_ge_zero_iff float_key_def)
  have "uint (x OR sign_bit) = uint (float_magnitude x) + 2 ^ (LENGTH('a) - 1)"
    using uint_top_split [of "x OR sign_bit"]
    by (simp add: float_magnitude_or_sign_bit float_sign_or_sign_bit)
  with True key show ?thesis
    by (simp add: normalize_float_def)
next
  case False
  with assms have s: "float_sign x" and m: "float_magnitude x \<noteq> 0"
    by (auto simp add: float_ge_zero_iff)
  then have key: "float_key x = - uint (float_magnitude x)" "float_key x < 0"
    by (simp_all add: float_key_def less_le)
  have "uint (NOT x) = 2 ^ LENGTH('a) - 1 - (uint (float_magnitude x) + 2 ^ (LENGTH('a) - 1))"
    using s by (simp add: uint_not uint_top_split [of x])
  also have "\<dots> = 2 ^ (LENGTH('a) - 1) - 1 - uint (float_magnitude x)"
    by (simp add: two_power_length [where 'a = 'a])
  finally show ?thesis
    using False key by (simp add: normalize_float_def)
qed

lemma normalize_float_less:
  assumes "\<not> float_is_nan fb a" "\<not> float_is_nan fb b"
  shows "normalize_float fb a < normalize_float fb b \<longleftrightarrow> float_less fb a b"
  using assms
  by (auto simp add: word_less_alt uint_normalize_float float_less_def split: if_splits)

section \<open>Order preservation where the layout is big-endian\<close>

lemma encodes_below_Inr [simp]: "encodes_below (Inr x) (Inr y) \<longleftrightarrow> bytes_less x y"
  by (simp add: encodes_below_def)

lemma sign_bit_byte: "(sign_bit :: byte) = 0x80"
  by (simp add: sign_bit_def)

lemma word_of_int_less:
  assumes "0 \<le> a" "a < 2 ^ LENGTH('a::len)" "0 \<le> b" "b < 2 ^ LENGTH('a)"
  shows "(word_of_int a :: 'a word) < word_of_int b \<longleftrightarrow> a < b"
  using assms by (simp add: word_less_alt uint_word_of_int_range)

lemma normalize_signed_word_of_int_less:
  assumes "- (2 ^ (LENGTH('a::len) - 1)) \<le> a" "a < 2 ^ (LENGTH('a) - 1)"
    "- (2 ^ (LENGTH('a) - 1)) \<le> b" "b < 2 ^ (LENGTH('a) - 1)"
  shows "normalize_signed (word_of_int a :: 'a word) < normalize_signed (word_of_int b) \<longleftrightarrow> a < b"
  using assms by (simp add: normalize_signed_less sint_word_of_int_range)

lemma flip_byte0_normalize_signed:
  assumes "LENGTH('a::len) = 8 * w"
  shows "flip_byte0 (big_endian w x) = big_endian w (normalize_signed x :: 'a word)"
  by (simp add: big_endian_flip_sign [OF assms] normalize_signed_def)

lemma int8_order:
  assumes "- 128 \<le> a" "a \<le> 127" "- 128 \<le> b" "b \<le> 127"
  shows "encodes_below (from_int8 True (PyLong a)) (from_int8 True (PyLong b)) \<longleftrightarrow> a < b"
  using assms normalize_signed_word_of_int_less [where 'a = 8, of a b]
  by (simp add: from_int8_PyLong normalize_signed_def sign_bit_byte)

lemma uint8_order:
  assumes "0 \<le> a" "a \<le> 255" "0 \<le> b" "b \<le> 255"
  shows "encodes_below (from_uint8 True (PyLong a)) (from_uint8 True (PyLong b)) \<longleftrightarrow> a < b"
  using assms word_of_int_less [where 'a = 8, of a b]
  by (simp add: from_uint8_PyLong)

lemma int16_order:
  assumes "- 32768 \<le> a" "a \<le> 32767" "- 32768 \<le> b" "b \<le> 32767"
  shows "encodes_below (from_int16 LittleEndian True (PyLong a))
           (from_int16 LittleEndian True (PyLong b)) \<longleftrightarrow> a < b"
  using assms normalize_signed_word_of_int_less [where 'a = 16, of a b]
  by (simp add: from_int16_PyLong integer_layout_by_host flip_byte0_normalize_signed
      bytes_less_big_endian)

lemma uint16_order:
  assumes "0 \<le> a" "a \<le> 65535" "0 \<le> b" "b \<le> 65535"
  shows "encodes_below (from_uint16 LittleEndian True (PyLong a))
           (from_uint16 LittleEndian True (PyLong b)) \<longleftrightarrow> a < b"
  using assms word_of_int_less [where 'a = 16, of a b]
  by (simp add: from_uint16_PyLong integer_layout_by_host bytes_less_big_endian)

lemma int32_order:
  assumes "- 2147483648 \<le> a" "a \<le> 2147483647" "- 2147483648 \<le> b" "b \<le> 2147483647"
  shows "encodes_below (from_int32 LittleEndian True (PyLong a))
           (from_int32 LittleEndian True (PyLong b)) \<longleftrightarrow> a < b"
  using assms normalize_signed_word_of_int_less [where 'a = 32, of a b]
  by (simp add: from_int32_PyLong integer_layout_by_host flip_byte0_normalize_signed
      bytes_less_big_endian)

lemma uint32_order:
  assumes "0 \<le> a" "a \<le> 4294967295" "0 \<le> b" "b \<le> 4294967295"
  shows "encodes_below (from_uint32 LittleEndian True (PyLong a))
           (from_uint32 LittleEndian True (PyLong b)) \<longleftrightarrow> a < b"
  using assms word_of_int_less [where 'a = 32, of a b]
  by (simp add: from_uint32_PyLong integer_layout_by_host bytes_less_big_endian)

lemma int64_order:
  assumes "- 9223372036854775808 \<le> a" "a \<le> 9223372036854775807"
    "- 9223372036854775808 \<le> b" "b \<le> 9223372036854775807"
  shows "encodes_below (from_int64 LittleEndian True (PyLong a))
           (from_int64 LittleEndian True (PyLong b)) \<longleftrightarrow> a < b"
  using assms normalize_signed_word_of_int_less [where 'a = 64, of a b]
  by (simp add: from_int64_PyLong integer_layout_by_host flip_byte0_normalize_signed
      bytes_less_big_endian)

lemma uint64_order:
  assumes "0 \<le> a" "a \<le> 18446744073709551615" "0 \<le> b" "b \<le> 18446744073709551615"
  shows "encodes_below (from_uint64 LittleEndian True (PyLong a))
           (from_uint64 LittleEndian True (PyLong b)) \<longleftrightarrow> a < b"
  using assms word_of_int_less [where 'a = 64, of a b]
  by (simp add: from_uint64_PyLong integer_layout_by_host bytes_less_big_endian)

lemma float32_order:
  assumes "\<not> float_is_nan binary32_fraction x" "\<not> float_is_nan binary32_fraction y"
  shows "encodes_below (from_float32 host True (Some x)) (from_float32 host True (Some y))
           \<longleftrightarrow> float_less binary32_fraction x y"
  using assms by (simp add: from_float32_normalize bytes_less_big_endian normalize_float_less)

lemma float64_order:
  assumes "\<not> float_is_nan binary64_fraction x" "\<not> float_is_nan binary64_fraction y"
  shows "encodes_below (from_float64 host True (Some x)) (from_float64 host True (Some y))
           \<longleftrightarrow> float_less binary64_fraction x y"
  using assms by (simp add: from_float64_normalize bytes_less_big_endian normalize_float_less)

text \<open>
  On a little-endian machine, and for the one-byte domains and the floats on either
  machine, the encodings are ordered exactly as the values are: for values \<open>a\<close> and \<open>b\<close>
  of a domain, \<open>encode(a) < encode(b)\<close> bytewise if and only if \<open>a < b\<close>. For the floats
  \<open>a < b\<close> is the comparison of floats, and NaNs are left out.
\<close>

lemma order_preserved_little_endian:
  "(- 128 \<le> a \<and> a \<le> 127 \<and> - 128 \<le> b \<and> b \<le> 127 \<longrightarrow>
      (encodes_below (from_int8 True (PyLong a)) (from_int8 True (PyLong b)) \<longleftrightarrow> a < b)) \<and>
   (0 \<le> a \<and> a \<le> 255 \<and> 0 \<le> b \<and> b \<le> 255 \<longrightarrow>
      (encodes_below (from_uint8 True (PyLong a)) (from_uint8 True (PyLong b)) \<longleftrightarrow> a < b)) \<and>
   (- 32768 \<le> a \<and> a \<le> 32767 \<and> - 32768 \<le> b \<and> b \<le> 32767 \<longrightarrow>
      (encodes_below (from_int16 LittleEndian True (PyLong a))
         (from_int16 LittleEndian True (PyLong b)) \<longleftrightarrow> a < b)) \<and>
   (0 \<le> a \<and> a \<le> 65535 \<and> 0 \<le> b \<and> b \<le> 65535 \<longrightarrow>
      (encodes_below (from_uint16 LittleEndian True (PyLong a))
         (from_uint16 LittleEndian True (PyLong b)) \<longleftrightarrow> a < b)) \<and>
   (- 2147483648 \<le> a \<and> a \<le> 2147483647 \<and> - 2147483648 \<le> b \<and> b \<le> 2147483647 \<longrightarrow>
      (encodes_below (from_int32 LittleEndian True (PyLong a))
         (from_int32 LittleEndian True (PyLong b)) \<longleftrightarrow> a < b)) \<and>
   (0 \<le> a \<and> a \<le> 4294967295 \<and> 0 \<le> b \<and> b \<le> 4294967295 \<longrightarrow>
      (encodes_below (from_uint32 LittleEndian True (PyLong a))
         (from_uint32 LittleEndian True (PyLong b)) \<longleftrightarrow> a < b)) \<and>
   (- 9223372036854775808 \<le> a \<and> a \<le> 9223372036854775807 \<and>
    - 9223372036854775808 \<le> b \<and> b \<le> 9223372036854775807 \<longrightarrow>
      (encodes_below (from_int64 LittleEndian True (PyLong a))
         (from_int64 LittleEndian True (PyLong b)) \<longleftrightarrow> a < b)) \<and>
   (0 \<le> a \<and> a \<le> 18446744073709551615 \<and> 0 \<le> b \<and> b \<le> 18446744073709551615 \<longrightarrow>
      (encodes_below (from_uint64 LittleEndian True (PyLong a))
         (from_uint64 LittleEndian True (PyLong b)) \<longleftrightarrow> a < b)) \<and>
   (\<not> float_is_nan binary32_fraction x \<and> \<not> float_is_nan binary32_fraction y \<longrightarrow>
      (encodes_below (from_float32 host True (Some x)) (from_float32 host True (Some y))
         \<longleftrightarrow> float_less binary32_fraction x y)) \<and>
   (\<not> float_is_nan binary64_fraction u \<and> \<not> float_is_nan binary64_fraction v \<longrightarrow>
      (encodes_below (from_float64 host True (Some u)) (from_float64 host True (Some v))
         \<longleftrightarrow> float_less binary64_fraction u v))"
  by (intro conjI impI; (elim conjE)?;
      (rule int8_order uint8_order int16_order uint16_order int32_order uint32_order
        int64_order uint64_order float32_order float64_order))

text \<open>
  On a little-endian machine the unsigned encoders do emit the big-endian layout: byte
  \<open>i\<close> of the output holds the bits \<open>[8w - 8(i+1), 8w - 8i)\<close> of the value.
\<close>

lemma bit_word_of_int_nth:
  assumes "k < LENGTH('a::len)"
  shows "bit (word_of_int n :: 'a word) k \<longleftrightarrow> bit n k"
  using assms by (simp add: bit_word_of_int_iff)

lemma unsigned_layout_little_endian:
  assumes "j < 8"
  shows "0 \<le> n \<and> n \<le> 255 \<and> from_uint8 True (PyLong n) = Inr bs \<longrightarrow>
           bit (bs ! 0) j = bit n j"
    and "0 \<le> n \<and> n \<le> 65535 \<and> from_uint16 LittleEndian True (PyLong n) = Inr bs \<and> i < 2 \<longrightarrow>
           bit (bs ! i) j = bit n (8 * (2 - 1 - i) + j)"
    and "0 \<le> n \<and> n \<le> 4294967295 \<and> from_uint32 LittleEndian True (PyLong n) = Inr bs \<and> i < 4 \<longrightarrow>
           bit (bs ! i) j = bit n (8 * (4 - 1 - i) + j)"
    and "0 \<le> n \<and> n \<le> 18446744073709551615
           \<and> from_uint64 LittleEndian True (PyLong n) = Inr bs \<and> i < 8 \<longrightarrow>
           bit (bs ! i) j = bit n (8 * (8 - 1 - i) + j)"
proof -
  show "0 \<le> n \<and> n \<le> 255 \<and> from_uint8 True (PyLong n) = Inr bs \<longrightarrow> bit (bs ! 0) j = bit n j"
    using assms by (auto simp add: from_uint8_PyLong bit_word_of_int_nth)
  have pos: "8 * (w - 1 - i) + j < 8 * w" if "i < w" for w
    using that assms by auto
  show "0 \<le> n \<and> n \<le> 65535 \<and> from_uint16 LittleEndian True (PyLong n) = Inr bs \<and> i < 2 \<longrightarrow>
      bit (bs ! i) j = bit n (8 * (2 - 1 - i) + j)"
    using assms pos [of 2]
    by (auto simp add: from_uint16_PyLong integer_layout_by_host bit_big_endian_nth
        bit_word_of_int_nth)
  show "0 \<le> n \<and> n \<le> 4294967295 \<and> from_uint32 LittleEndian True (PyLong n) = Inr bs \<and> i < 4 \<longrightarrow>
      bit (bs ! i) j = bit n (8 * (4 - 1 - i) + j)"
    using assms pos [of 4]
    by (auto simp add: from_uint32_PyLong integer_layout_by_host bit_big_endian_nth
        bit_word_of_int_nth)
  show "0 \<le> n \<and> n \<le> 18446744073709551615
      \<and> from_uint64 LittleEndian True (PyLong n) = Inr bs \<and> i < 8 \<longrightarrow>
      bit (bs ! i) j = bit n (8 * (8 - 1 - i) + j)"
    using assms pos [of 8]
    by (auto simp add: from_uint64_PyLong integer_layout_by_host bit_big_endian_nth
        bit_word_of_int_nth)
qed

text \<open>
  On a little-endian machine the signed codecs are the ones of the specification: the
  encoder emits the two's-complement big-endian bytes with the top bit of byte 0 flipped,
  and the decoder flips it back and reads the bytes as a big-endian two's-complement
  number.
\<close>

lemma signed_codec_little_endian:
  "- 128 \<le> n \<and> n \<le> 127 \<longrightarrow>
     from_int8 True (PyLong n) = Inr (flip_byte0 (big_endian 1 (word_of_int n :: 8 word)))"
  "- 32768 \<le> n \<and> n \<le> 32767 \<longrightarrow>
     from_int16 LittleEndian True (PyLong n) = Inr (flip_byte0 (big_endian 2 (word_of_int n :: 16 word)))"
  "- 2147483648 \<le> n \<and> n \<le> 2147483647 \<longrightarrow>
     from_int32 LittleEndian True (PyLong n) = Inr (flip_byte0 (big_endian 4 (word_of_int n :: 32 word)))"
  "- 9223372036854775808 \<le> n \<and> n \<le> 9223372036854775807 \<longrightarrow>
     from_int64 LittleEndian True (PyLong n) = Inr (flip_byte0 (big_endian 8 (word_of_int n :: 64 word)))"
  "length bs = 1 \<longrightarrow> to_int8 (PyBytes bs) = Inr (sint (be_word (flip_byte0 bs) :: 8 word))"
  "length bs = 2 \<longrightarrow>
     to_int16 LittleEndian True (PyBytes bs) = Inr (sint (be_word (flip_byte0 bs) :: 16 word))"
  "length bs = 4 \<longrightarrow>
     to_int32 LittleEndian True (PyBytes bs) = Inr (sint (be_word (flip_byte0 bs) :: 32 word))"
  "length bs = 8 \<longrightarrow>
     to_int64 LittleEndian True (PyBytes bs) = Inr (sint (be_word (flip_byte0 bs) :: 64 word))"
proof -
  have one: "be_word [b] = (b :: 8 word)" for b
    by (simp add: be_word_def)
  show "length bs = 1 \<longrightarrow> to_int8 (PyBytes bs) = Inr (sint (be_word (flip_byte0 bs) :: 8 word))"
  proof
    assume "length bs = 1"
    then obtain b where "bs = [b]"
      by (cases bs) simp_all
    then show "to_int8 (PyBytes bs) = Inr (sint (be_word (flip_byte0 bs) :: 8 word))"
      by (simp add: to_int8_bytes flip_byte0_def one)
  qed
qed (simp_all add: from_int8_PyLong from_int16_PyLong from_int32_PyLong from_int64_PyLong
    to_int16_bytes to_int32_bytes to_int64_bytes integer_layout_by_host wire_word_def
    big_endian_def flip_byte0_def)

end
